theory Spec2Isabelle
  imports Main "HOL-Library.Word"
begin

unbundle bit_operations_syntax

section \<open>The remote block store of golongtail (longtailstorelib/remotestore.go)\<close>

text \<open>
  A shallow embedding of \<^verbatim>\<open>remotestore.go\<close>. The functions of the file are translated
  one by one and keep their names. What the file takes from elsewhere is a parameter:
  the blob store behind \<^verbatim>\<open>BlobClient\<close> and \<^verbatim>\<open>BlobObject\<close> is a state of an
  arbitrary type \<open>'w\<close> with the interface's methods as functions on it, and the
  functions of \<^verbatim>\<open>longtaillib\<close> (the codec, the handles of blocks and indexes, the
  conversion between status codes and errors) are the fields of a record. Go's
  \<^verbatim>\<open>(value, err)\<close> results are pairs whose second component is an \<open>error option\<close>,
  \<open>None\<close> for \<^verbatim>\<open>nil\<close>.
\<close>

subsection \<open>Values, errors, and the interfaces the file consumes\<close>

type_synonym uint64 = "64 word"
type_synonym bytes = "8 word list"

text \<open>
  The error values the file produces or passes on: the sentinels of \<^verbatim>\<open>longtaillib\<close>,
  whatever a blob store reports, and \<^verbatim>\<open>errors.Wrap\<close>/\<^verbatim>\<open>errors.Wrapf\<close> around either.
\<close>

datatype error =
    ErrENOENT | ErrEIO | ErrEBADF | ErrENOMEM | ErrEACCES
  | BlobError nat
  | Wrapf error string

text \<open>The status codes of \<^verbatim>\<open>longtaillib\<close> that the file names (the values of errno.h).\<close>

definition ENOENT :: int where "ENOENT = 2"
definition EIO :: int where "EIO = 5"
definition EBADF :: int where "EBADF = 9"
definition ENOMEM :: int where "ENOMEM = 12"
definition EACCES :: int where "EACCES = 13"
definition EINVAL :: int where "EINVAL = 22"

text \<open>
  \<^verbatim>\<open>BlobObject\<close>: a handle on one object of the blob store. Each method reads and may
  change the store \<open>'w\<close>. \<^verbatim>\<open>Read\<close> yields \<open>None\<close> for a nil slice.
\<close>

record 'w BlobObject =
  Exists :: "'w \<Rightarrow> (bool \<times> error option) \<times> 'w"
  Read :: "'w \<Rightarrow> (bytes option \<times> error option) \<times> 'w"
  Write :: "bytes \<Rightarrow> 'w \<Rightarrow> (bool \<times> error option) \<times> 'w"
  LockWriteVersion :: "'w \<Rightarrow> (bool \<times> error option) \<times> 'w"

text \<open>\<^verbatim>\<open>BlobClient.NewObject\<close>: a handle for a key, or an error.\<close>

record 'w BlobClient =
  NewObject :: "string \<Rightarrow> 'w \<Rightarrow> (error + 'w BlobObject) \<times> 'w"

text \<open>
  The part of \<^verbatim>\<open>longtaillib\<close> the file calls. \<open>'blk\<close>, \<open>'bi\<close> and \<open>'si\<close> are the
  handle types \<^verbatim>\<open>Longtail_StoredBlock\<close>, \<^verbatim>\<open>Longtail_BlockIndex\<close> and
  \<^verbatim>\<open>Longtail_StoreIndex\<close>; \<open>NoStoredBlock\<close> and \<open>NoStoreIndex\<close> are their zero values
  \<^verbatim>\<open>Longtail_StoredBlock{}\<close> and \<^verbatim>\<open>Longtail_StoreIndex{}\<close>. The codec functions return
  a value and a status code, \<open>0\<close> for success.
\<close>

record ('blk, 'bi, 'si) longtaillib =
  NoStoredBlock :: 'blk
  IsValid :: "'blk \<Rightarrow> bool"
  GetBlockSize :: "'blk \<Rightarrow> int"
  GetBlockIndex :: "'blk \<Rightarrow> 'bi"
  GetBlockHash :: "'bi \<Rightarrow> uint64"
  GetChunkCount :: "'bi \<Rightarrow> 32 word"
  Copy :: "'bi \<Rightarrow> 'bi \<times> error option"
  WriteStoredBlockToBuffer :: "'blk \<Rightarrow> bytes \<times> int"
  ReadStoredBlockFromBuffer :: "bytes \<Rightarrow> 'blk \<times> int"
  ErrnoToError :: "int \<Rightarrow> error \<Rightarrow> error option"
  ErrorToErrno :: "error option \<Rightarrow> int \<Rightarrow> int"
  NoStoreIndex :: 'si
  ReadStoreIndexFromBuffer :: "bytes \<Rightarrow> 'si \<times> int"
  MergeStoreIndex :: "'si \<Rightarrow> 'si \<Rightarrow> 'si \<times> int"
  WriteStoreIndexToBuffer :: "'si \<Rightarrow> bytes \<times> int"

subsection \<open>The store and what it does to the outside\<close>

text \<open>
  \<^verbatim>\<open>AccessType\<close>, the messages of the channels, and a slot of the prefetch cache. A
  completion callback (\<^verbatim>\<open>asyncCompleteAPI\<close>) is known by a number; calling it is an
  event of the trace.
\<close>

datatype AccessType = Init | ReadWrite | ReadOnly

type_synonym callback = nat

record 'blk putBlockMessage =
  put_storedBlock :: 'blk
  put_asyncCompleteAPI :: callback

record getBlockMessage =
  get_blockHash :: uint64
  get_asyncCompleteAPI :: callback

record 'blk pendingPrefetchedBlock =
  pending_storedBlock :: 'blk
  pending_completeCallbacks :: "callback list"

datatype StatU64 =
    GetStoredBlock_Count | GetStoredBlock_RetryCount | GetStoredBlock_FailCount
  | GetStoredBlock_Chunk_Count | GetStoredBlock_Byte_Count
  | PutStoredBlock_Count | PutStoredBlock_RetryCount | PutStoredBlock_FailCount
  | PutStoredBlock_Chunk_Count | PutStoredBlock_Byte_Count

datatype logarg = ArgString string | ArgHash uint64 | ArgStore

text \<open>
  Everything a function does besides changing the store's fields, in the order it happens:
  the calls on the blob store, the sleeps of the retry ladders (in milliseconds), the lines
  printed, the completion callbacks called, the blocks disposed, the block indexes sent to
  the index worker, the flush replies sent.
\<close>

datatype ('blk, 'bi) event =
    CallNewObject string
  | CallExists string
  | CallRead string
  | CallWrite string bytes
  | CallLockWriteVersion string
  | Sleep nat
  | Printf string "logarg list"
  | PutOnComplete callback int
  | GetOnComplete callback 'blk int
  | Dispose 'blk
  | SendBlockIndex 'bi
  | FlushReply int

text \<open>
  \<^verbatim>\<open>remoteStore\<close>, with the blob store it works on. A Go map from hashes to pointers
  is a function to \<open>option option\<close>: \<open>None\<close> for a hash that is not a key of the map,
  \<open>Some None\<close> for a key whose value is \<^verbatim>\<open>nil\<close> (a tombstone), \<open>Some (Some b)\<close> for
  a key whose value points to the slot \<open>b\<close>. The only pointers to a slot that outlive a
  critical section are those of the map. A channel is the list of the messages queued in it.
\<close>

record ('w, 'blk, 'bi) remoteStore =
  world :: 'w
  prefetchMemory :: "64 word"
  maxPrefetchMemory :: "64 word"
  prefetchBlocks :: "uint64 \<Rightarrow> 'blk pendingPrefetchedBlock option option"
  stats :: "StatU64 \<Rightarrow> 64 word"
  prefetchBlockChan :: "uint64 list"
  blockIndexChan :: "'bi list"
  trace :: "('blk, 'bi) event list"

definition emit :: "('blk, 'bi) event \<Rightarrow> ('w, 'blk, 'bi) remoteStore \<Rightarrow> ('w, 'blk, 'bi) remoteStore" where
  "emit e s = s\<lparr>trace := trace s @ [e]\<rparr>"

text \<open>\<^verbatim>\<open>atomic.AddUint64(&s.stats.StatU64[i], n)\<close>: addition modulo \<open>2 ^ 64\<close>.\<close>

definition addStat :: "StatU64 \<Rightarrow> 64 word \<Rightarrow> ('w, 'blk, 'bi) remoteStore \<Rightarrow> ('w, 'blk, 'bi) remoteStore" where
  "addStat i n s = s\<lparr>stats := (stats s)(i := stats s i + n)\<rparr>"

text \<open>A call on the blob store: the event, then the method on the store.\<close>

definition onWorld :: "('blk, 'bi) event \<Rightarrow> ('w \<Rightarrow> 'a \<times> 'w) \<Rightarrow> ('w, 'blk, 'bi) remoteStore
    \<Rightarrow> 'a \<times> ('w, 'blk, 'bi) remoteStore" where
  "onWorld e f s = (case f (world s) of (r, w) \<Rightarrow> (r, (emit e s)\<lparr>world := w\<rparr>))"

subsection \<open>\<^verbatim>\<open>GetBlockPath\<close>\<close>

text \<open>\<^verbatim>\<open>fmt.Sprintf("%016x", h)\<close> for a \<^verbatim>\<open>uint64\<close>: sixteen lowercase digits, the most
  significant first.\<close>

definition hexdigit :: "64 word \<Rightarrow> char" where
  "hexdigit d = ''0123456789abcdef'' ! unat (d AND 15)"

fun hexdigits :: "nat \<Rightarrow> 64 word \<Rightarrow> string" where
  "hexdigits 0 u = []"
| "hexdigits (Suc k) u = hexdigits k (drop_bit 4 u) @ [hexdigit u]"

definition hex16 :: "64 word \<Rightarrow> string" where
  "hex16 h = hexdigits 16 h"

text \<open>
  \<^verbatim>\<open>filepath.Join\<close> and \<^verbatim>\<open>filepath.Clean\<close> of Go's standard library, where the
  separator is \<^verbatim>\<open>/\<close>: \<^verbatim>\<open>Join\<close> drops leading empty elements, joins the rest with the
  separator and cleans the result; \<^verbatim>\<open>Clean\<close> drops empty and \<^verbatim>\<open>.\<close> elements, lets a
  \<^verbatim>\<open>..\<close> remove the element before it (or drops it at the root, or keeps it at
  the start of a relative path), and turns the empty result into \<^verbatim>\<open>.\<close>.
\<close>

fun split_sep :: "char \<Rightarrow> string \<Rightarrow> string list" where
  "split_sep c [] = [[]]"
| "split_sep c (x # xs) =
     (if x = c then [] # split_sep c xs
      else (case split_sep c xs of e # es \<Rightarrow> (x # e) # es | [] \<Rightarrow> [[x]]))"

fun join_sep :: "char \<Rightarrow> string list \<Rightarrow> string" where
  "join_sep c [] = []"
| "join_sep c [e] = e"
| "join_sep c (e # es) = e @ c # join_sep c es"

text \<open>The elements kept so far are \<open>out\<close>, the last one first.\<close>

fun clean_elems :: "bool \<Rightarrow> string list \<Rightarrow> string list \<Rightarrow> string list" where
  "clean_elems rooted out [] = rev out"
| "clean_elems rooted out (e # es) =
     (if e = [] \<or> e = ''.'' then clean_elems rooted out es
      else if e = ''..'' then
        (case out of
           [] \<Rightarrow> if rooted then clean_elems rooted out es else clean_elems rooted (e # out) es
         | p # ps \<Rightarrow> if p = ''..'' then clean_elems rooted (e # out) es
                    else clean_elems rooted ps es)
      else clean_elems rooted (e # out) es)"

definition Clean :: "string \<Rightarrow> string" where
  "Clean path =
     (if path = [] then ''.''
      else let rooted = (hd path = CHR ''/'');
               body = join_sep CHR ''/'' (clean_elems rooted [] (split_sep CHR ''/'' path))
           in if rooted then CHR ''/'' # body else if body = [] then ''.'' else body)"

definition Join :: "string list \<Rightarrow> string" where
  "Join elem =
     (case dropWhile (\<lambda>e. e = []) elem of
        [] \<Rightarrow> []
      | e # es \<Rightarrow> Clean (join_sep CHR ''/'' (e # es)))"

text \<open>\<^verbatim>\<open>strings.Replace(name, "\\", "/", -1)\<close>; the backslash is character 92.\<close>

definition backslash :: char where
  "backslash = CHR 0x5C"

definition Replace_backslash :: "string \<Rightarrow> string" where
  "Replace_backslash name = map (\<lambda>c. if c = backslash then CHR ''/'' else c) name"

definition GetBlockPath :: "string \<Rightarrow> uint64 \<Rightarrow> string" where
  "GetBlockPath basePath blockHash =
     (let fileName = ''0x'' @ hex16 blockHash @ ''.lsb'';
          dir = Join [basePath, take 4 (drop 2 fileName)];
          name = Join [dir, fileName]
      in Replace_backslash name)"

subsection \<open>\<^verbatim>\<open>readBlobWithRetry\<close>\<close>

definition readBlobWithRetry :: "'w BlobClient \<Rightarrow> string \<Rightarrow> ('w, 'blk, 'bi) remoteStore
    \<Rightarrow> (bytes option \<times> nat \<times> error option) \<times> ('w, 'blk, 'bi) remoteStore" where
  "readBlobWithRetry client key s0 =
     (let retryCount = 0 in
      case onWorld (CallNewObject key) (NewObject client key) s0 of
        (Inl err, s1) \<Rightarrow> ((None, retryCount, Some err), s1)
      | (Inr objHandle, s1) \<Rightarrow>
     (case onWorld (CallExists key) (Exists objHandle) s1 of
        ((_, Some err), s2) \<Rightarrow> ((None, retryCount, Some err), s2)
      | ((exists, None), s2) \<Rightarrow>
          if \<not> exists then ((None, retryCount, Some ErrENOENT), s2)
          else
            let ((blobData, err), s3) = onWorld (CallRead key) (Read objHandle) s2;
                (((blobData, err), s4), retryCount) =
                  (if err \<noteq> None then
                     (onWorld (CallRead key) (Read objHandle)
                        (emit (Printf ''Retrying getBlob %s in store %s'' [ArgString key, ArgStore]) s3),
                      retryCount + 1)
                   else (((blobData, err), s3), retryCount));
                (((blobData, err), s5), retryCount) =
                  (if err \<noteq> None then
                     (onWorld (CallRead key) (Read objHandle)
                        (emit (Sleep 500)
                          (emit (Printf ''Retrying 500 ms delayed getBlob %s in store %s'' [ArgString key, ArgStore]) s4)),
                      retryCount + 1)
                   else (((blobData, err), s4), retryCount));
                (((blobData, err), s6), retryCount) =
                  (if err \<noteq> None then
                     (onWorld (CallRead key) (Read objHandle)
                        (emit (Sleep 2000)
                          (emit (Printf ''Retrying 2 s delayed getBlob %s in store %s'' [ArgString key, ArgStore]) s5)),
                      retryCount + 1)
                   else (((blobData, err), s5), retryCount))
            in if err \<noteq> None then ((None, retryCount, err), s6)
               else ((blobData, retryCount, None), s6)))"

subsection \<open>\<^verbatim>\<open>putStoredBlock\<close> and \<^verbatim>\<open>getStoredBlock\<close>\<close>

text \<open>
  Lines 266 to 271 of \<^verbatim>\<open>putStoredBlock\<close>, which both paths of the function end with:
  copy the block index and send the copy on the block-index channel. The channel has
  room for \<^verbatim>\<open>workerCount * 2048\<close> messages; the model lets the send go through.
\<close>

definition putStoredBlock_send :: "('blk, 'bi, 'si) longtaillib \<Rightarrow> 'bi \<Rightarrow> ('w, 'blk, 'bi) remoteStore
    \<Rightarrow> error option \<times> ('w, 'blk, 'bi) remoteStore" where
  "putStoredBlock_send L blockIndex s =
     (case Copy L blockIndex of
        (_, Some err) \<Rightarrow> (Some err, s)
      | (blockIndexCopy, None) \<Rightarrow>
          (None, emit (SendBlockIndex blockIndexCopy)
                   (s\<lparr>blockIndexChan := blockIndexChan s @ [blockIndexCopy]\<rparr>)))"

text \<open>Lines 238 to 255: the write and its three retries.\<close>

definition putStoredBlock_write :: "string \<Rightarrow> 'w BlobObject \<Rightarrow> bytes \<Rightarrow> ('w, 'blk, 'bi) remoteStore
    \<Rightarrow> (bool \<times> error option) \<times> ('w, 'blk, 'bi) remoteStore" where
  "putStoredBlock_write key objHandle blob s3 =
     (let ((ok, err), s4) = onWorld (CallWrite key blob) (Write objHandle blob) s3;
          ((ok, err), s5) =
            (if err \<noteq> None \<or> \<not> ok then
               onWorld (CallWrite key blob) (Write objHandle blob)
                 (addStat PutStoredBlock_RetryCount 1
                   (emit (Printf ''Retrying putBlob %s in store %s'' [ArgString key, ArgStore]) s4))
             else ((ok, err), s4));
          ((ok, err), s6) =
            (if err \<noteq> None \<or> \<not> ok then
               onWorld (CallWrite key blob) (Write objHandle blob)
                 (addStat PutStoredBlock_RetryCount 1
                   (emit (Sleep 500)
                     (emit (Printf ''Retrying 500 ms delayed putBlob %s in store %s'' [ArgString key, ArgStore]) s5)))
             else ((ok, err), s5));
          ((ok, err), s7) =
            (if err \<noteq> None \<or> \<not> ok then
               onWorld (CallWrite key blob) (Write objHandle blob)
                 (addStat PutStoredBlock_RetryCount 1
                   (emit (Sleep 2000)
                     (emit (Printf ''Retrying 2 s delayed putBlob %s in store %s'' [ArgString key, ArgStore]) s6)))
             else ((ok, err), s6))
      in ((ok, err), s7))"

definition putStoredBlock :: "('blk, 'bi, 'si) longtaillib \<Rightarrow> 'w BlobClient \<Rightarrow> 'blk
    \<Rightarrow> ('w, 'blk, 'bi) remoteStore \<Rightarrow> error option \<times> ('w, 'blk, 'bi) remoteStore" where
  "putStoredBlock L blobClient storedBlock s0 =
     (let s1 = addStat PutStoredBlock_Count 1 s0;
          blockIndex = GetBlockIndex L storedBlock;
          blockHash = GetBlockHash L blockIndex;
          key = GetBlockPath ''chunks'' blockHash
      in case onWorld (CallNewObject key) (NewObject blobClient key) s1 of
           (Inl err, s2) \<Rightarrow> (Some err, s2)
         | (Inr objHandle, s2) \<Rightarrow>
             let ((exists, err), s3) = onWorld (CallExists key) (Exists objHandle) s2
             in if err = None \<and> \<not> exists then
                  let (blob, errno) = WriteStoredBlockToBuffer L storedBlock
                  in if errno \<noteq> 0 then (ErrnoToError L errno ErrEIO, s3)
                     else
                       let ((ok, err), s7) = putStoredBlock_write key objHandle blob s3
                       in if err \<noteq> None \<or> \<not> ok then
                            (ErrnoToError L errno ErrEIO, addStat PutStoredBlock_FailCount 1 s7)
                          else
                            putStoredBlock_send L blockIndex
                              (addStat PutStoredBlock_Chunk_Count (ucast (GetChunkCount L blockIndex))
                                (addStat PutStoredBlock_Byte_Count (of_nat (length blob)) s7))
                else putStoredBlock_send L blockIndex s3)"

definition getStoredBlock :: "('blk, 'bi, 'si) longtaillib \<Rightarrow> 'w BlobClient \<Rightarrow> uint64
    \<Rightarrow> ('w, 'blk, 'bi) remoteStore \<Rightarrow> ('blk \<times> error option) \<times> ('w, 'blk, 'bi) remoteStore" where
  "getStoredBlock L blobClient blockHash s0 =
     (let s1 = addStat GetStoredBlock_Count 1 s0;
          key = GetBlockPath ''chunks'' blockHash;
          ((storedBlockData, retryCount, err), s2) = readBlobWithRetry blobClient key s1;
          s3 = addStat GetStoredBlock_RetryCount (of_nat retryCount) s2
      in case storedBlockData of
           None \<Rightarrow> ((NoStoredBlock L, err), addStat GetStoredBlock_FailCount 1 s3)
         | Some data \<Rightarrow>
             if err \<noteq> None then ((NoStoredBlock L, err), addStat GetStoredBlock_FailCount 1 s3)
             else
               let (storedBlock, errno) = ReadStoredBlockFromBuffer L data
               in if errno \<noteq> 0 then
                    ((NoStoredBlock L, ErrnoToError L errno ErrEIO),
                     addStat GetStoredBlock_FailCount 1 s3)
                  else
                    let s4 = addStat GetStoredBlock_Byte_Count (of_nat (length data)) s3;
                        blockIndex = GetBlockIndex L storedBlock
                    in if GetBlockHash L blockIndex \<noteq> blockHash then
                         ((NoStoredBlock L, ErrnoToError L EBADF ErrEBADF),
                          addStat GetStoredBlock_FailCount 1 s4)
                       else
                         ((storedBlock, None),
                          addStat GetStoredBlock_Chunk_Count (ucast (GetChunkCount L blockIndex)) s4))"

subsection \<open>The prefetch cache: \<^verbatim>\<open>fetchBlock\<close>, \<^verbatim>\<open>prefetchBlock\<close>, \<^verbatim>\<open>flushPrefetch\<close>\<close>

text \<open>
  \<^verbatim>\<open>fetchBlock\<close> and \<^verbatim>\<open>prefetchBlock\<close> hold the mutex \<^verbatim>\<open>fetchedBlocksSync\<close> twice,
  before and after the read of the block, and other workers run in between. Each critical
  section is a function of its own (\<open>_begin\<close>, which says whether the read is to be done,
  and \<open>_finish\<close>); \<open>_end\<close> is the read followed by the second critical section, and
  \<open>fetchBlock\<close> and \<open>prefetchBlock\<close> are \<open>_begin\<close> followed by \<open>_end\<close> with no
  other worker in between.

  The body of the delivery loops (lines 344 to 358, and again 405 to 419): one waiter is
  given the error, or a copy of the block made by encoding and decoding it.
\<close>

definition deliver :: "('blk, 'bi, 'si) longtaillib \<Rightarrow> 'blk \<Rightarrow> error option \<Rightarrow> callback
    \<Rightarrow> ('w, 'blk, 'bi) remoteStore \<Rightarrow> ('w, 'blk, 'bi) remoteStore" where
  "deliver L storedBlock getErr c s =
     (if getErr \<noteq> None then emit (GetOnComplete c (NoStoredBlock L) (ErrorToErrno L getErr EIO)) s
      else
        let (buf, errno) = WriteStoredBlockToBuffer L storedBlock
        in if errno \<noteq> 0 then emit (GetOnComplete c (NoStoredBlock L) errno) s
           else
             let (blockCopy, errno) = ReadStoredBlockFromBuffer L buf
             in if errno \<noteq> 0 then emit (GetOnComplete c (NoStoredBlock L) errno) s
                else emit (GetOnComplete c blockCopy 0) s)"

text \<open>Lines 313 to 331. \<^verbatim>\<open>int64\<close> arithmetic is that of \<open>64 word\<close>.\<close>

definition fetchBlock_begin :: "('blk, 'bi, 'si) longtaillib \<Rightarrow> getBlockMessage
    \<Rightarrow> ('w, 'blk, 'bi) remoteStore \<Rightarrow> bool \<times> ('w, 'blk, 'bi) remoteStore" where
  "fetchBlock_begin L getMsg s =
     (case prefetchBlocks s (get_blockHash getMsg) of
        Some (Some prefetchedBlock) \<Rightarrow>
          let storedBlock = pending_storedBlock prefetchedBlock
          in if IsValid L storedBlock then
               let s1 = s\<lparr>prefetchBlocks := (prefetchBlocks s)(get_blockHash getMsg \<mapsto> None)\<rparr>;
                   blockSize = - word_of_int (GetBlockSize L storedBlock);
                   s2 = s1\<lparr>prefetchMemory := prefetchMemory s1 + blockSize\<rparr>
               in (False, emit (GetOnComplete (get_asyncCompleteAPI getMsg) storedBlock 0) s2)
             else
               (False, s\<lparr>prefetchBlocks := (prefetchBlocks s)(get_blockHash getMsg \<mapsto>
                  Some (prefetchedBlock\<lparr>pending_completeCallbacks :=
                     pending_completeCallbacks prefetchedBlock @ [get_asyncCompleteAPI getMsg]\<rparr>))\<rparr>)
      | _ \<Rightarrow>
          (True, s\<lparr>prefetchBlocks := (prefetchBlocks s)(get_blockHash getMsg \<mapsto>
             Some \<lparr>pending_storedBlock = NoStoredBlock L, pending_completeCallbacks = []\<rparr>)\<rparr>))"

text \<open>
  Lines 333 to 360. When the hash is no key of the map any more, \<^verbatim>\<open>prefetchedBlock\<close> is
  \<^verbatim>\<open>nil\<close> and \<^verbatim>\<open>exists\<close> is false, so line 340 reads a field through a nil pointer
  and the worker panics: the result \<open>None\<close>.
\<close>

definition fetchBlock_finish :: "('blk, 'bi, 'si) longtaillib \<Rightarrow> getBlockMessage \<Rightarrow> 'blk \<Rightarrow> error option
    \<Rightarrow> ('w, 'blk, 'bi) remoteStore \<Rightarrow> ('w, 'blk, 'bi) remoteStore option" where
  "fetchBlock_finish L getMsg storedBlock getStoredBlockErr s =
     (case prefetchBlocks s (get_blockHash getMsg) of
        Some None \<Rightarrow> Some (emit (Dispose storedBlock) s)
      | None \<Rightarrow> None
      | Some (Some prefetchedBlock) \<Rightarrow>
          let completeCallbacks = pending_completeCallbacks prefetchedBlock;
              s1 = s\<lparr>prefetchBlocks := (prefetchBlocks s)(get_blockHash getMsg \<mapsto> None)\<rparr>;
              s2 = foldl (\<lambda>s c. deliver L storedBlock getStoredBlockErr c s) s1 completeCallbacks
          in Some (emit (GetOnComplete (get_asyncCompleteAPI getMsg) storedBlock
                           (ErrorToErrno L getStoredBlockErr EIO)) s2))"

text \<open>Lines 332 to 360: the read, then the second critical section.\<close>

definition fetchBlock_end :: "('blk, 'bi, 'si) longtaillib \<Rightarrow> 'w BlobClient \<Rightarrow> getBlockMessage
    \<Rightarrow> ('w, 'blk, 'bi) remoteStore \<Rightarrow> ('w, 'blk, 'bi) remoteStore option" where
  "fetchBlock_end L client getMsg s1 =
     (let ((storedBlock, getStoredBlockErr), s2) = getStoredBlock L client (get_blockHash getMsg) s1
      in fetchBlock_finish L getMsg storedBlock getStoredBlockErr s2)"

definition fetchBlock :: "('blk, 'bi, 'si) longtaillib \<Rightarrow> 'w BlobClient \<Rightarrow> getBlockMessage
    \<Rightarrow> ('w, 'blk, 'bi) remoteStore \<Rightarrow> ('w, 'blk, 'bi) remoteStore option" where
  "fetchBlock L client getMsg s =
     (case fetchBlock_begin L getMsg s of
        (False, s1) \<Rightarrow> Some s1
      | (True, s1) \<Rightarrow> fetchBlock_end L client getMsg s1)"

text \<open>Lines 368 to 377.\<close>

definition prefetchBlock_begin :: "('blk, 'bi, 'si) longtaillib \<Rightarrow> uint64
    \<Rightarrow> ('w, 'blk, 'bi) remoteStore \<Rightarrow> bool \<times> ('w, 'blk, 'bi) remoteStore" where
  "prefetchBlock_begin L blockHash s =
     (case prefetchBlocks s blockHash of
        Some _ \<Rightarrow> (False, s)
      | None \<Rightarrow>
          (True, s\<lparr>prefetchBlocks := (prefetchBlocks s)(blockHash \<mapsto>
             Some \<lparr>pending_storedBlock = NoStoredBlock L, pending_completeCallbacks = []\<rparr>)\<rparr>))"

text \<open>The loop of lines 403 to 420: \<^verbatim>\<open>for i := 1; i < len(completeCallbacks)-1; i++\<close>.\<close>

function prefetchBlock_loop :: "('blk, 'bi, 'si) longtaillib \<Rightarrow> 'blk \<Rightarrow> error option \<Rightarrow> callback list
    \<Rightarrow> nat \<Rightarrow> ('w, 'blk, 'bi) remoteStore \<Rightarrow> ('w, 'blk, 'bi) remoteStore" where
  "prefetchBlock_loop L storedBlock getErr completeCallbacks i s =
     (if int i < int (length completeCallbacks) - 1 then
        prefetchBlock_loop L storedBlock getErr completeCallbacks (i + 1)
          (deliver L storedBlock getErr (completeCallbacks ! i) s)
      else s)"
  by pat_completeness auto
termination
  by (relation "measure (\<lambda>(L, storedBlock, getErr, completeCallbacks, i, s). length completeCallbacks - i)") auto

declare prefetchBlock_loop.simps [simp del]

text \<open>Lines 384 to 421, reached when the read gave no error.\<close>

definition prefetchBlock_finish :: "('blk, 'bi, 'si) longtaillib \<Rightarrow> uint64 \<Rightarrow> 'blk \<Rightarrow> error option
    \<Rightarrow> ('w, 'blk, 'bi) remoteStore \<Rightarrow> ('w, 'blk, 'bi) remoteStore" where
  "prefetchBlock_finish L blockHash storedBlock getErr s =
     (case prefetchBlocks s blockHash of
        Some (Some prefetchedBlock) \<Rightarrow>
          let completeCallbacks = pending_completeCallbacks prefetchedBlock
          in if length completeCallbacks = 0 then
               let blockSize = word_of_int (GetBlockSize L storedBlock);
                   s1 = s\<lparr>prefetchBlocks := (prefetchBlocks s)(blockHash \<mapsto>
                           Some (prefetchedBlock\<lparr>pending_storedBlock := storedBlock\<rparr>))\<rparr>
               in s1\<lparr>prefetchMemory := prefetchMemory s1 + blockSize\<rparr>
             else
               let s1 = s\<lparr>prefetchBlocks := (prefetchBlocks s)(blockHash \<mapsto> None)\<rparr>;
                   s2 = prefetchBlock_loop L storedBlock getErr completeCallbacks 1 s1
               in emit (GetOnComplete (completeCallbacks ! 0) storedBlock (ErrorToErrno L getErr EIO)) s2
      | _ \<Rightarrow> emit (Dispose storedBlock) s)"

text \<open>Lines 379 to 421: the read, the return on an error, then the second critical section.\<close>

definition prefetchBlock_end :: "('blk, 'bi, 'si) longtaillib \<Rightarrow> 'w BlobClient \<Rightarrow> uint64
    \<Rightarrow> ('w, 'blk, 'bi) remoteStore \<Rightarrow> ('w, 'blk, 'bi) remoteStore" where
  "prefetchBlock_end L client blockHash s1 =
     (let ((storedBlock, getErr), s2) = getStoredBlock L client blockHash s1
      in if getErr \<noteq> None then s2
         else prefetchBlock_finish L blockHash storedBlock getErr s2)"

definition prefetchBlock :: "('blk, 'bi, 'si) longtaillib \<Rightarrow> 'w BlobClient \<Rightarrow> uint64
    \<Rightarrow> ('w, 'blk, 'bi) remoteStore \<Rightarrow> ('w, 'blk, 'bi) remoteStore" where
  "prefetchBlock L client blockHash s =
     (case prefetchBlock_begin L blockHash s of
        (False, s1) \<Rightarrow> s1
      | (True, s1) \<Rightarrow> prefetchBlock_end L client blockHash s1)"

text \<open>
  \<^verbatim>\<open>flushPrefetch\<close>. The first loop receives from the prefetch channel until nothing is
  queued. The second loop ranges over the map, in an order Go does not fix: the argument
  \<open>keys\<close> is the order of that run, a list of the keys of the map without repetition.
  The third loop goes through the hashes the second has collected.
\<close>

fun flushPrefetch_drain :: "uint64 list \<Rightarrow> uint64 list" where
  "flushPrefetch_drain [] = []"
| "flushPrefetch_drain (m # ms) = flushPrefetch_drain ms"

definition range_order :: "(uint64 \<Rightarrow> 'v option) \<Rightarrow> uint64 list \<Rightarrow> bool" where
  "range_order m keys \<longleftrightarrow> distinct keys \<and> set keys = dom m"

fun flushPrefetch_collect :: "uint64 list \<Rightarrow> uint64 list \<Rightarrow> ('w, 'blk, 'bi) remoteStore
    \<Rightarrow> uint64 list \<times> ('w, 'blk, 'bi) remoteStore" where
  "flushPrefetch_collect [] flushBlocks s = (flushBlocks, s)"
| "flushPrefetch_collect (k # ks) flushBlocks s =
     (case prefetchBlocks s k of
        Some (Some v) \<Rightarrow>
          if length (pending_completeCallbacks v) > 0 then
            flushPrefetch_collect ks flushBlocks
              (emit (Printf ''Somebody is still waiting for prefetch %d'' [ArgHash k]) s)
          else flushPrefetch_collect ks (flushBlocks @ [k]) s
      | _ \<Rightarrow> flushPrefetch_collect ks (flushBlocks @ [k]) s)"

definition flushPrefetch_remove :: "('blk, 'bi, 'si) longtaillib \<Rightarrow> ('w, 'blk, 'bi) remoteStore \<Rightarrow> uint64
    \<Rightarrow> ('w, 'blk, 'bi) remoteStore" where
  "flushPrefetch_remove L s h =
     (let s1 = (case prefetchBlocks s h of
                  Some (Some b) \<Rightarrow>
                    if IsValid L (pending_storedBlock b) then
                      let blockSize = - word_of_int (GetBlockSize L (pending_storedBlock b))
                      in emit (Dispose (pending_storedBlock b)) (s\<lparr>prefetchMemory := prefetchMemory s + blockSize\<rparr>)
                    else s
                | _ \<Rightarrow> s)
      in s1\<lparr>prefetchBlocks := (prefetchBlocks s1)(h := None)\<rparr>)"

definition flushPrefetch :: "('blk, 'bi, 'si) longtaillib \<Rightarrow> uint64 list \<Rightarrow> ('w, 'blk, 'bi) remoteStore
    \<Rightarrow> ('w, 'blk, 'bi) remoteStore" where
  "flushPrefetch L keys s =
     (let s1 = s\<lparr>prefetchBlockChan := flushPrefetch_drain (prefetchBlockChan s)\<rparr>;
          (flushBlocks, s2) = flushPrefetch_collect keys [] s1
      in foldl (flushPrefetch_remove L) s2 flushBlocks)"

subsection \<open>\<^verbatim>\<open>remoteWorker\<close>\<close>

text \<open>
  One pass through the body of the worker's loop (lines 477 to 538). What the two
  \<^verbatim>\<open>select\<close> statements receive is the input: a put message, the news that the put
  channel is closed, a get message, a flush request, or the next hash of the prefetch
  channel; \<^verbatim>\<open>default\<close> when the first \<^verbatim>\<open>select\<close> finds nothing. The pass returns the
  store and the variable \<^verbatim>\<open>run\<close>, or panics, or blocks when the chosen case cannot
  be taken.
\<close>

datatype 'blk select1 =
    Put1 "'blk putBlockMessage" | PutClosed1 | Get1 getBlockMessage | Default1

datatype 'blk select2 =
    Flush2 | Put2 "'blk putBlockMessage" | PutClosed2 | Get2 getBlockMessage | Prefetch2

datatype 'a outcome = Returns 'a | Panics | Blocks

text \<open>The handling of a put message, written out three times in the source
  (lines 482 to 487, 504 to 509 and 525 to 530).\<close>

definition remoteWorker_put :: "('blk, 'bi, 'si) longtaillib \<Rightarrow> 'w BlobClient \<Rightarrow> AccessType
    \<Rightarrow> 'blk putBlockMessage \<Rightarrow> ('w, 'blk, 'bi) remoteStore \<Rightarrow> ('w, 'blk, 'bi) remoteStore" where
  "remoteWorker_put L client accessType putMsg s =
     (if accessType = ReadOnly then emit (PutOnComplete (put_asyncCompleteAPI putMsg) EACCES) s
      else
        let (err, s1) = putStoredBlock L client (put_storedBlock putMsg) s
        in emit (PutOnComplete (put_asyncCompleteAPI putMsg) (ErrorToErrno L err EIO)) s1)"

definition remoteWorker_get :: "('blk, 'bi, 'si) longtaillib \<Rightarrow> 'w BlobClient \<Rightarrow> getBlockMessage \<Rightarrow> bool
    \<Rightarrow> ('w, 'blk, 'bi) remoteStore \<Rightarrow> (('w, 'blk, 'bi) remoteStore \<times> bool) outcome" where
  "remoteWorker_get L client getMsg run s =
     (case fetchBlock L client getMsg s of None \<Rightarrow> Panics | Some s1 \<Rightarrow> Returns (s1, run))"

definition remoteWorker_iteration :: "('blk, 'bi, 'si) longtaillib \<Rightarrow> 'w BlobClient \<Rightarrow> AccessType
    \<Rightarrow> uint64 list \<Rightarrow> 'blk select1 \<Rightarrow> 'blk select2
    \<Rightarrow> ('w, 'blk, 'bi) remoteStore \<Rightarrow> (('w, 'blk, 'bi) remoteStore \<times> bool) outcome" where
  "remoteWorker_iteration L client accessType keys sel1 sel2 s =
     (case sel1 of
        Put1 putMsg \<Rightarrow> Returns (remoteWorker_put L client accessType putMsg s, True)
      | Get1 getMsg \<Rightarrow> remoteWorker_get L client getMsg True s
      | _ \<Rightarrow>
          let run = (sel1 \<noteq> PutClosed1)
          in if sint (prefetchMemory s) < sint (maxPrefetchMemory s) then
               (case sel2 of
                  Flush2 \<Rightarrow> Returns (emit (FlushReply 0) (flushPrefetch L keys s), run)
                | Put2 putMsg \<Rightarrow> Returns (remoteWorker_put L client accessType putMsg s, run)
                | PutClosed2 \<Rightarrow> Returns (s, False)
                | Get2 getMsg \<Rightarrow> remoteWorker_get L client getMsg run s
                | Prefetch2 \<Rightarrow>
                    (case prefetchBlockChan s of
                       [] \<Rightarrow> Blocks
                     | blockHash # rest \<Rightarrow>
                         Returns (prefetchBlock L client blockHash (s\<lparr>prefetchBlockChan := rest\<rparr>), run)))
             else
               (case sel2 of
                  Flush2 \<Rightarrow> Returns (emit (FlushReply 0) (flushPrefetch L keys s), run)
                | Put2 putMsg \<Rightarrow> Returns (remoteWorker_put L client accessType putMsg s, run)
                | PutClosed2 \<Rightarrow> Returns (s, False)
                | Get2 getMsg \<Rightarrow> remoteWorker_get L client getMsg run s
                | Prefetch2 \<Rightarrow> Blocks))"

subsection \<open>\<^verbatim>\<open>tryUpdateRemoteStoreIndex\<close> and \<^verbatim>\<open>updateRemoteStoreIndex\<close>\<close>

text \<open>
  The two functions take no \<^verbatim>\<open>remoteStore\<close>: they work on the blob store alone.
  \<^verbatim>\<open>errors.Wrapf\<close> of \<^verbatim>\<open>nil\<close> is \<^verbatim>\<open>nil\<close>. A nil slice is a slice of length 0.
  The calls of \<^verbatim>\<open>Dispose\<close> on store indexes free memory and are left out.
\<close>

definition wrapf :: "error option \<Rightarrow> string \<Rightarrow> error option" where
  "wrapf err msg = (case err of None \<Rightarrow> None | Some e \<Rightarrow> Some (Wrapf e msg))"

definition slice :: "bytes option \<Rightarrow> bytes" where
  "slice b = (case b of None \<Rightarrow> [] | Some xs \<Rightarrow> xs)"

definition tryUpdateRemoteStoreIndex :: "('blk, 'bi, 'si) longtaillib \<Rightarrow> 'si \<Rightarrow> 'w BlobObject \<Rightarrow> 'w
    \<Rightarrow> (bool \<times> 'si \<times> error option) \<times> 'w" where
  "tryUpdateRemoteStoreIndex L updatedStoreIndex objHandle w0 =
     (case LockWriteVersion objHandle w0 of
        ((_, Some err), w1) \<Rightarrow> ((False, NoStoreIndex L, Some err), w1)
      | ((exists, None), w1) \<Rightarrow>
          if exists then
            (case Read objHandle w1 of
               ((_, Some err), w2) \<Rightarrow>
                 ((False, NoStoreIndex L,
                   wrapf (Some err) ''updateRemoteStoreIndex: objHandle.Read() failed''), w2)
             | ((blob, None), w2) \<Rightarrow>
                 let (remoteStoreIndex, errno) = ReadStoreIndexFromBuffer L (slice blob)
                 in if errno \<noteq> 0 then
                      ((False, NoStoreIndex L,
                        wrapf (ErrnoToError L errno ErrEIO)
                          ''updateRemoteStoreIndex: longtaillib.ReadStoreIndexFromBuffer() failed''), w2)
                    else
                      let (newStoreIndex, errno) = MergeStoreIndex L updatedStoreIndex remoteStoreIndex
                      in if errno \<noteq> 0 then
                           ((False, NoStoreIndex L,
                             wrapf (ErrnoToError L errno ErrENOMEM)
                               ''updateRemoteStoreIndex: longtaillib.MergeStoreIndex() failed''), w2)
                         else
                           let (storeBlob, errno) = WriteStoreIndexToBuffer L newStoreIndex
                           in if errno \<noteq> 0 then
                                ((False, NoStoreIndex L,
                                  wrapf (ErrnoToError L errno ErrENOMEM)
                                    ''updateRemoteStoreIndex: longtaillib.WriteStoreIndexToBuffer() kfailed''), w2)
                              else
                                (case Write objHandle storeBlob w2 of
                                   ((_, Some err), w3) \<Rightarrow>
                                     ((False, NoStoreIndex L,
                                       wrapf (Some err) ''updateRemoteStoreIndex: objHandle.Write() failed''), w3)
                                 | ((ok, None), w3) \<Rightarrow>
                                     if \<not> ok then ((False, NoStoreIndex L, None), w3)
                                     else ((ok, newStoreIndex, None), w3)))
          else
            let (storeBlob, errno) = WriteStoreIndexToBuffer L updatedStoreIndex
            in if errno \<noteq> 0 then
                 ((False, NoStoreIndex L,
                   wrapf (ErrnoToError L errno ErrENOMEM)
                     ''updateRemoteStoreIndex: WriteStoreIndexToBuffer() failed''), w1)
               else
                 (case Write objHandle storeBlob w1 of
                    ((_, Some err), w2) \<Rightarrow>
                      ((False, NoStoreIndex L,
                        wrapf (Some err) ''updateRemoteStoreIndex: objHandle.Write() failed''), w2)
                  | ((ok, None), w2) \<Rightarrow> ((ok, NoStoreIndex L, None), w2)))"

text \<open>
  The loop of lines 610 to 622 has no bound: it ends when an attempt reports \<^verbatim>\<open>ok\<close> or
  an error. A run that never ends is the value \<open>None\<close>.
\<close>

partial_function (option) updateRemoteStoreIndex_loop ::
    "('blk, 'bi, 'si) longtaillib \<Rightarrow> 'si \<Rightarrow> 'w BlobObject \<Rightarrow> 'w \<Rightarrow> (('si \<times> error option) \<times> 'w) option" where
  "updateRemoteStoreIndex_loop L updatedStoreIndex objHandle w =
     (case tryUpdateRemoteStoreIndex L updatedStoreIndex objHandle w of
        ((ok, newStoreIndex, err), w') \<Rightarrow>
          if ok then Some ((newStoreIndex, None), w')
          else if err \<noteq> None then
            Some ((NoStoreIndex L,
                   wrapf err ''updateRemoteStoreIndex: tryUpdateRemoteStoreIndex(%s) failed''), w')
          else updateRemoteStoreIndex_loop L updatedStoreIndex objHandle w')"

definition updateRemoteStoreIndex :: "('blk, 'bi, 'si) longtaillib \<Rightarrow> 'w BlobClient \<Rightarrow> 'si \<Rightarrow> 'w
    \<Rightarrow> (('si \<times> error option) \<times> 'w) option" where
  "updateRemoteStoreIndex L blobClient updatedStoreIndex w0 =
     (let key = ''store.lsi''
      in case NewObject blobClient key w0 of
           (Inl err, w1) \<Rightarrow>
             Some ((NoStoreIndex L,
                    wrapf (Some err) ''updateRemoteStoreIndex: blobClient.NewObject(%s) failed''), w1)
         | (Inr objHandle, w1) \<Rightarrow> updateRemoteStoreIndex_loop L updatedStoreIndex objHandle w1)"

subsection \<open>A library and a blob store to run the functions on\<close>

text \<open>
  The functions above work with any library and any blob store. To run them on concrete
  inputs, here is a small instance of each. A block of \<open>ex_lib\<close> is its hash and its
  size, \<open>None\<close> being the zero value; a block index is the hash; a store index is a list of
  hashes. A status code of 0 is no error, and no error is the status code 0.
\<close>

type_synonym ex_block = "(uint64 \<times> int) option"

definition ex_ErrorToErrno :: "error option \<Rightarrow> int \<Rightarrow> int" where
  "ex_ErrorToErrno err fallback =
     (case err of
        None \<Rightarrow> 0
      | Some ErrENOENT \<Rightarrow> ENOENT
      | Some ErrEIO \<Rightarrow> EIO
      | Some ErrEBADF \<Rightarrow> EBADF
      | Some ErrENOMEM \<Rightarrow> ENOMEM
      | Some ErrEACCES \<Rightarrow> EACCES
      | Some _ \<Rightarrow> fallback)"

definition ex_ErrnoToError :: "int \<Rightarrow> error \<Rightarrow> error option" where
  "ex_ErrnoToError errno fallback =
     (if errno = 0 then None
      else if errno = ENOENT then Some ErrENOENT
      else if errno = EIO then Some ErrEIO
      else if errno = EBADF then Some ErrEBADF
      else if errno = ENOMEM then Some ErrENOMEM
      else if errno = EACCES then Some ErrEACCES
      else Some fallback)"

definition ex_lib :: "(ex_block, uint64, uint64 list) longtaillib" where
  "ex_lib =
     \<lparr>NoStoredBlock = None,
      IsValid = (\<lambda>b. b \<noteq> None),
      GetBlockSize = (\<lambda>b. case b of None \<Rightarrow> 0 | Some (h, n) \<Rightarrow> n),
      GetBlockIndex = (\<lambda>b. case b of None \<Rightarrow> 0 | Some (h, n) \<Rightarrow> h),
      GetBlockHash = (\<lambda>bi. bi),
      GetChunkCount = (\<lambda>bi. 1),
      Copy = (\<lambda>bi. (bi, None)),
      WriteStoredBlockToBuffer =
        (\<lambda>b. case b of None \<Rightarrow> ([], EINVAL) | Some (h, n) \<Rightarrow> ([ucast h, word_of_int n], 0)),
      ReadStoredBlockFromBuffer =
        (\<lambda>buf. case buf of [x, y] \<Rightarrow> (Some (ucast x, uint y), 0) | _ \<Rightarrow> (None, EBADF)),
      ErrnoToError = ex_ErrnoToError,
      ErrorToErrno = ex_ErrorToErrno,
      NoStoreIndex = [],
      ReadStoreIndexFromBuffer = (\<lambda>buf. (map ucast buf, 0)),
      MergeStoreIndex = (\<lambda>a b. (a @ filter (\<lambda>x. x \<notin> set a) b, 0)),
      WriteStoreIndexToBuffer = (\<lambda>si. (map ucast si, 0))\<rparr>"

text \<open>
  Modelled from the spec: the blob stores behind \<^verbatim>\<open>BlobClient\<close> and \<^verbatim>\<open>BlobObject\<close>
  (file system, GCS, S3) are not in \<^verbatim>\<open>remotestore.go\<close>. Section 4.A of the
  specification gives their contract: \<^verbatim>\<open>exists\<close>, \<^verbatim>\<open>read\<close> (fails with not-found),
  \<^verbatim>\<open>write\<close> (false when the version has changed since the lock),
  \<^verbatim>\<open>lock_write_version\<close> (says whether the object existed), with read-after-write
  consistency on one object. \<open>ex_client\<close> is an in-memory store with that contract. Its
  state also says how many of the next reads and writes fail with an I/O error
  (\<open>faults\<close>) and how many of the next writes after those report a changed version
  (\<open>drifts\<close>); with both at 0 every call succeeds.
\<close>

record ex_world =
  objects :: "string \<Rightarrow> bytes option"
  faults :: nat
  drifts :: nat

definition ex_object :: "string \<Rightarrow> ex_world BlobObject" where
  "ex_object key =
     \<lparr>Exists = (\<lambda>w. ((objects w key \<noteq> None, None), w)),
      Read = (\<lambda>w. if faults w > 0 then ((None, Some (BlobError 1)), w\<lparr>faults := faults w - 1\<rparr>)
                   else (case objects w key of
                           None \<Rightarrow> ((None, Some ErrENOENT), w)
                         | Some b \<Rightarrow> ((Some b, None), w))),
      Write = (\<lambda>blob w.
                 if faults w > 0 then ((False, Some (BlobError 1)), w\<lparr>faults := faults w - 1\<rparr>)
                 else if drifts w > 0 then ((False, None), w\<lparr>drifts := drifts w - 1\<rparr>)
                 else ((True, None), w\<lparr>objects := (objects w)(key \<mapsto> blob)\<rparr>)),
      LockWriteVersion = (\<lambda>w. ((objects w key \<noteq> None, None), w))\<rparr>"

definition ex_client :: "ex_world BlobClient" where
  "ex_client = \<lparr>NewObject = (\<lambda>key w. (Inr (ex_object key), w))\<rparr>"

text \<open>A store as \<^verbatim>\<open>NewRemoteBlockStore\<close> makes it, on a given blob store.\<close>

definition ex_store :: "ex_world \<Rightarrow> (ex_world, ex_block, uint64) remoteStore" where
  "ex_store w =
     \<lparr>world = w, prefetchMemory = 0, maxPrefetchMemory = 512 * 1024 * 1024,
      prefetchBlocks = (\<lambda>h. None), stats = (\<lambda>i. 0),
      prefetchBlockChan = [], blockIndexChan = [], trace = []\<rparr>"

text \<open>
  A run of two workers on one hash, the block of hash 7 and size 100 being in the blob
  store. Worker A starts a prefetch and goes to read. Meanwhile worker B serves a flush,
  which removes the slot A has installed, then starts a fetch of the same hash, installs
  a slot of its own and goes to read. A's read ends and A runs its second critical
  section; then B's read ends and B runs its own. Each state is the store when a
  critical section is left; after the last one no worker is at work.
\<close>

definition race_0 :: "(ex_world, ex_block, uint64) remoteStore" where
  "race_0 = ex_store \<lparr>objects = [GetBlockPath ''chunks'' 7 \<mapsto> [7, 100]], faults = 0, drifts = 0\<rparr>"

definition race_1 :: "(ex_world, ex_block, uint64) remoteStore" where
  "race_1 = snd (prefetchBlock_begin ex_lib 7 race_0)"

definition race_2 :: "(ex_world, ex_block, uint64) remoteStore" where
  "race_2 = flushPrefetch ex_lib [7] race_1"

definition race_3 :: "(ex_world, ex_block, uint64) remoteStore" where
  "race_3 = snd (fetchBlock_begin ex_lib \<lparr>get_blockHash = 7, get_asyncCompleteAPI = 1\<rparr> race_2)"

definition race_4 :: "(ex_world, ex_block, uint64) remoteStore" where
  "race_4 = prefetchBlock_end ex_lib ex_client 7 race_3"

definition race_5 :: "(ex_world, ex_block, uint64) remoteStore option" where
  "race_5 = fetchBlock_end ex_lib ex_client \<lparr>get_blockHash = 7, get_asyncCompleteAPI = 1\<rparr> race_4"

subsection \<open>Notions the properties are stated with\<close>

text \<open>The callbacks of the get completions in a trace, and the writes in a trace.\<close>

fun completed :: "('blk, 'bi) event list \<Rightarrow> callback list" where
  "completed [] = []"
| "completed (GetOnComplete c b e # es) = c # completed es"
| "completed (_ # es) = completed es"

fun writes :: "('blk, 'bi) event list \<Rightarrow> (string \<times> bytes) list" where
  "writes [] = []"
| "writes (CallWrite k b # es) = (k, b) # writes es"
| "writes (_ # es) = writes es"

text \<open>
  A key of the map is waited for when its slot has callbacks queued; the block a key
  holds is the valid block of its slot, if any.
\<close>

definition waited :: "(uint64 \<Rightarrow> 'blk pendingPrefetchedBlock option option) \<Rightarrow> uint64 \<Rightarrow> bool" where
  "waited m k = (case m k of Some (Some v) \<Rightarrow> pending_completeCallbacks v \<noteq> [] | _ \<Rightarrow> False)"

definition held :: "('blk, 'bi, 'si) longtaillib \<Rightarrow> (uint64 \<Rightarrow> 'blk pendingPrefetchedBlock option option)
    \<Rightarrow> uint64 \<Rightarrow> 'blk option" where
  "held L m k =
     (case m k of
        Some (Some b) \<Rightarrow> if IsValid L (pending_storedBlock b) then Some (pending_storedBlock b) else None
      | _ \<Rightarrow> None)"

text \<open>
  The memory the cache holds: the sum, in \<^verbatim>\<open>int64\<close> arithmetic, of the sizes of the
  blocks held by the keys of the map. There are finitely many hashes.
\<close>

definition heldMemory :: "('blk, 'bi, 'si) longtaillib
    \<Rightarrow> (uint64 \<Rightarrow> 'blk pendingPrefetchedBlock option option) \<Rightarrow> 64 word" where
  "heldMemory L m =
     (\<Sum>k \<in> UNIV. case held L m k of None \<Rightarrow> 0 | Some b \<Rightarrow> word_of_int (GetBlockSize L b))"

text \<open>A path element that \<^verbatim>\<open>Clean\<close> keeps: not empty, not \<^verbatim>\<open>.\<close> and not \<^verbatim>\<open>..\<close>.\<close>

definition plain_elem :: "string \<Rightarrow> bool" where
  "plain_elem e \<longleftrightarrow> e \<noteq> [] \<and> e \<noteq> ''.'' \<and> e \<noteq> ''..''"

text \<open>
  Modelled from the spec: \<^verbatim>\<open>decode_hash\<close> is named by the specification (section 8,
  path bijection) and is no function of the repository. It reads the hash back from the
  sixteen hexadecimal digits of the file name, which end four characters (\<^verbatim>\<open>.lsb\<close>)
  before the end of the path.
\<close>

definition hexval :: "char \<Rightarrow> 64 word" where
  "hexval c =
     (let n = (of_char c :: nat)
      in if 48 \<le> n \<and> n \<le> 57 then of_nat (n - 48) else of_nat (n - 87))"

definition parse_hex :: "string \<Rightarrow> 64 word" where
  "parse_hex cs = foldl (\<lambda>acc c. push_bit 4 acc OR hexval c) 0 cs"

definition decode_hash :: "string \<Rightarrow> 64 word" where
  "decode_hash path = parse_hex (take 16 (drop (length path - 20) path))"

text \<open>A write attempt of \<^verbatim>\<open>putStoredBlock\<close> has failed: \<^verbatim>\<open>err != nil || !ok\<close>.\<close>

definition failed :: "bool \<times> error option \<Rightarrow> bool" where
  "failed r \<longleftrightarrow> snd r \<noteq> None \<or> \<not> fst r"

section \<open>Properties\<close>

subsection \<open>The read with retries\<close>

lemma onWorld_eq:
  "f (world s) = (r, w) \<Longrightarrow> onWorld e f s = (r, s\<lparr>world := w, trace := trace s @ [e]\<rparr>)"
  by (simp add: onWorld_def emit_def)

lemma readBlobWithRetry_eq:
  fixes s :: "('w, 'blk, 'bi) remoteStore"
  assumes "NewObject client key (world s) = (Inr obj, w0)"
    and "Exists obj w0 = ((ex, e0), w1)"
    and "Read obj w1 = ((d1, e1), w2)"
    and "Read obj w2 = ((d2, e2), w3)"
    and "Read obj w3 = ((d3, e3), w4)"
    and "Read obj w4 = ((d4, e4), w5)"
  shows "readBlobWithRetry client key s =
    (if e0 \<noteq> None then
       ((None, 0, e0), s\<lparr>world := w1, trace := trace s @ [CallNewObject key, CallExists key]\<rparr>)
     else if \<not> ex then
       ((None, 0, Some ErrENOENT), s\<lparr>world := w1, trace := trace s @ [CallNewObject key, CallExists key]\<rparr>)
     else if e1 = None then
       ((d1, 0, None),
        s\<lparr>world := w2, trace := trace s @ [CallNewObject key, CallExists key, CallRead key]\<rparr>)
     else if e2 = None then
       ((d2, 1, None),
        s\<lparr>world := w3, trace := trace s @ [CallNewObject key, CallExists key, CallRead key,
           Printf ''Retrying getBlob %s in store %s'' [ArgString key, ArgStore], CallRead key]\<rparr>)
     else if e3 = None then
       ((d3, 2, None),
        s\<lparr>world := w4, trace := trace s @ [CallNewObject key, CallExists key, CallRead key,
           Printf ''Retrying getBlob %s in store %s'' [ArgString key, ArgStore], CallRead key,
           Printf ''Retrying 500 ms delayed getBlob %s in store %s'' [ArgString key, ArgStore],
           Sleep 500, CallRead key]\<rparr>)
     else
       ((if e4 = None then d4 else None, 3, e4),
        s\<lparr>world := w5, trace := trace s @ [CallNewObject key, CallExists key, CallRead key,
           Printf ''Retrying getBlob %s in store %s'' [ArgString key, ArgStore], CallRead key,
           Printf ''Retrying 500 ms delayed getBlob %s in store %s'' [ArgString key, ArgStore],
           Sleep 500, CallRead key,
           Printf ''Retrying 2 s delayed getBlob %s in store %s'' [ArgString key, ArgStore],
           Sleep 2000, CallRead key]\<rparr>))"
  using assms
  by (cases e0) (simp_all add: readBlobWithRetry_def onWorld_eq emit_def)

lemma readBlobWithRetry_shape:
  fixes s :: "('w, 'blk, 'bi) remoteStore"
  shows "\<exists>r w evs. \<forall>s' :: ('w, 'blk, 'bi) remoteStore. world s' = world s \<longrightarrow>
           readBlobWithRetry client key s' = (r, s'\<lparr>world := w, trace := trace s' @ evs\<rparr>)"
proof -
  obtain r0 w0 where n: "NewObject client key (world s) = (r0, w0)"
    by (cases "NewObject client key (world s)")
  show ?thesis
  proof (cases r0)
    case (Inl err)
    have "\<forall>s' :: ('w, 'blk, 'bi) remoteStore. world s' = world s \<longrightarrow>
            readBlobWithRetry client key s' =
              ((None, 0, Some err), s'\<lparr>world := w0, trace := trace s' @ [CallNewObject key]\<rparr>)"
      using n Inl by (simp add: readBlobWithRetry_def onWorld_eq)
    then show ?thesis by blast
  next
    case (Inr obj)
    obtain ex e0 w1 where a: "Exists obj w0 = ((ex, e0), w1)"
      by (metis surj_pair)
    obtain d1 e1 w2 where b: "Read obj w1 = ((d1, e1), w2)"
      by (metis surj_pair)
    obtain d2 e2 w3 where c: "Read obj w2 = ((d2, e2), w3)"
      by (metis surj_pair)
    obtain d3 e3 w4 where d: "Read obj w3 = ((d3, e3), w4)"
      by (metis surj_pair)
    obtain d4 e4 w5 where e: "Read obj w4 = ((d4, e4), w5)"
      by (metis surj_pair)
    have *: "NewObject client key (world s') = (Inr obj, w0)" if "world s' = world s"
      for s' :: "('w, 'blk, 'bi) remoteStore"
      using n Inr that by simp
    show ?thesis
      using readBlobWithRetry_eq [OF * a b c d e]
      by (cases e0; cases ex; cases e1; cases e2; cases e3) (simp_all, blast+)
  qed
qed


text \<open>
  Claim C7. \<^verbatim>\<open>readBlobWithRetry\<close> first asks whether the object exists. When the answer
  is no, it returns \<^verbatim>\<open>ErrENOENT\<close> with a retry count of 0 and reads nothing. When the
  answer is yes, it reads; after a failure it reads again at once, after a second failure
  it sleeps 500 ms and reads, after a third it sleeps 2 s and reads. It returns the bytes
  of the first read that succeeds with the number of retries before it (0 to 3), or the
  error of the fourth read with the count 3. The six results below name what the handle
  answers to the existence check and to up to four reads in a row.
\<close>

theorem readBlobWithRetry_ladder:
  fixes s :: "('w, 'blk, 'bi) remoteStore"
  assumes "NewObject client key (world s) = (Inr obj, w0)"
    and "Exists obj w0 = ((ex, None), w1)"
    and "Read obj w1 = ((d1, e1), w2)"
    and "Read obj w2 = ((d2, e2), w3)"
    and "Read obj w3 = ((d3, e3), w4)"
    and "Read obj w4 = ((d4, e4), w5)"
  shows "(\<not> ex \<longrightarrow> readBlobWithRetry client key s =
            ((None, 0, Some ErrENOENT),
             s\<lparr>world := w1, trace := trace s @ [CallNewObject key, CallExists key]\<rparr>))
       \<and> (ex \<and> e1 = None \<longrightarrow> readBlobWithRetry client key s =
            ((d1, 0, None),
             s\<lparr>world := w2, trace := trace s @ [CallNewObject key, CallExists key, CallRead key]\<rparr>))
       \<and> (ex \<and> e1 \<noteq> None \<and> e2 = None \<longrightarrow> readBlobWithRetry client key s =
            ((d2, 1, None),
             s\<lparr>world := w3, trace := trace s @ [CallNewObject key, CallExists key, CallRead key,
                Printf ''Retrying getBlob %s in store %s'' [ArgString key, ArgStore], CallRead key]\<rparr>))
       \<and> (ex \<and> e1 \<noteq> None \<and> e2 \<noteq> None \<and> e3 = None \<longrightarrow> readBlobWithRetry client key s =
            ((d3, 2, None),
             s\<lparr>world := w4, trace := trace s @ [CallNewObject key, CallExists key, CallRead key,
                Printf ''Retrying getBlob %s in store %s'' [ArgString key, ArgStore], CallRead key,
                Printf ''Retrying 500 ms delayed getBlob %s in store %s'' [ArgString key, ArgStore],
                Sleep 500, CallRead key]\<rparr>))
       \<and> (ex \<and> e1 \<noteq> None \<and> e2 \<noteq> None \<and> e3 \<noteq> None \<and> e4 = None \<longrightarrow>
            readBlobWithRetry client key s =
            ((d4, 3, None),
             s\<lparr>world := w5, trace := trace s @ [CallNewObject key, CallExists key, CallRead key,
                Printf ''Retrying getBlob %s in store %s'' [ArgString key, ArgStore], CallRead key,
                Printf ''Retrying 500 ms delayed getBlob %s in store %s'' [ArgString key, ArgStore],
                Sleep 500, CallRead key,
                Printf ''Retrying 2 s delayed getBlob %s in store %s'' [ArgString key, ArgStore],
                Sleep 2000, CallRead key]\<rparr>))
       \<and> (ex \<and> e1 \<noteq> None \<and> e2 \<noteq> None \<and> e3 \<noteq> None \<and> e4 \<noteq> None \<longrightarrow>
            readBlobWithRetry client key s =
            ((None, 3, e4),
             s\<lparr>world := w5, trace := trace s @ [CallNewObject key, CallExists key, CallRead key,
                Printf ''Retrying getBlob %s in store %s'' [ArgString key, ArgStore], CallRead key,
                Printf ''Retrying 500 ms delayed getBlob %s in store %s'' [ArgString key, ArgStore],
                Sleep 500, CallRead key,
                Printf ''Retrying 2 s delayed getBlob %s in store %s'' [ArgString key, ArgStore],
                Sleep 2000, CallRead key]\<rparr>))"
  using readBlobWithRetry_eq [OF assms] by simp

theorem readBlobWithRetry_ladder_witness:
  "fst (readBlobWithRetry ex_client ''k''
         (ex_store \<lparr>objects = [''k'' \<mapsto> [1, 2]], faults = 2, drifts = 0\<rparr>)) = (Some [1, 2], 2, None)
   \<and> trace (snd (readBlobWithRetry ex_client ''k''
         (ex_store \<lparr>objects = [''k'' \<mapsto> [1, 2]], faults = 2, drifts = 0\<rparr>))) =
       [CallNewObject ''k'', CallExists ''k'', CallRead ''k'',
        Printf ''Retrying getBlob %s in store %s'' [ArgString ''k'', ArgStore], CallRead ''k'',
        Printf ''Retrying 500 ms delayed getBlob %s in store %s'' [ArgString ''k'', ArgStore],
        Sleep 500, CallRead ''k'']"
proof -
  let ?w = "\<lparr>objects = [''k'' \<mapsto> [1, 2 :: 8 word]], faults = 2, drifts = 0\<rparr>"
  have n: "NewObject ex_client ''k'' (world (ex_store ?w)) = (Inr (ex_object ''k''), ?w)"
    by (simp add: ex_client_def ex_store_def)
  have x: "Exists (ex_object ''k'') ?w = ((True, None), ?w)"
    by (simp add: ex_object_def)
  have r1: "Read (ex_object ''k'') ?w = ((None, Some (BlobError 1)), ?w\<lparr>faults := 1\<rparr>)"
    by (simp add: ex_object_def)
  have r2: "Read (ex_object ''k'') (?w\<lparr>faults := 1\<rparr>) = ((None, Some (BlobError 1)), ?w\<lparr>faults := 0\<rparr>)"
    by (simp add: ex_object_def)
  have r3: "Read (ex_object ''k'') (?w\<lparr>faults := 0\<rparr>) = ((Some [1, 2], None), ?w\<lparr>faults := 0\<rparr>)"
    by (simp add: ex_object_def)
  show ?thesis
    using readBlobWithRetry_ladder [OF n x r1 r2 r3 r3]
    by (simp add: ex_store_def)
qed

subsection \<open>Putting a block\<close>

lemma putStoredBlock_write_eq:
  fixes s :: "('w, 'blk, 'bi) remoteStore"
  assumes "Write obj blob (world s) = (r1, w2)"
    and "Write obj blob w2 = (r2, w3)"
    and "Write obj blob w3 = (r3, w4)"
    and "Write obj blob w4 = (r4, w5)"
  shows "putStoredBlock_write key obj blob s =
    (if \<not> failed r1 then
       (r1, s\<lparr>world := w2, trace := trace s @ [CallWrite key blob]\<rparr>)
     else if \<not> failed r2 then
       (r2, s\<lparr>world := w3,
              stats := (stats s)(PutStoredBlock_RetryCount := stats s PutStoredBlock_RetryCount + 1),
              trace := trace s @ [CallWrite key blob,
                Printf ''Retrying putBlob %s in store %s'' [ArgString key, ArgStore],
                CallWrite key blob]\<rparr>)
     else if \<not> failed r3 then
       (r3, s\<lparr>world := w4,
              stats := (stats s)(PutStoredBlock_RetryCount := stats s PutStoredBlock_RetryCount + 2),
              trace := trace s @ [CallWrite key blob,
                Printf ''Retrying putBlob %s in store %s'' [ArgString key, ArgStore],
                CallWrite key blob,
                Printf ''Retrying 500 ms delayed putBlob %s in store %s'' [ArgString key, ArgStore],
                Sleep 500, CallWrite key blob]\<rparr>)
     else
       (r4, s\<lparr>world := w5,
              stats := (stats s)(PutStoredBlock_RetryCount := stats s PutStoredBlock_RetryCount + 3),
              trace := trace s @ [CallWrite key blob,
                Printf ''Retrying putBlob %s in store %s'' [ArgString key, ArgStore],
                CallWrite key blob,
                Printf ''Retrying 500 ms delayed putBlob %s in store %s'' [ArgString key, ArgStore],
                Sleep 500, CallWrite key blob,
                Printf ''Retrying 2 s delayed putBlob %s in store %s'' [ArgString key, ArgStore],
                Sleep 2000, CallWrite key blob]\<rparr>))"
  using assms
  by (cases r1; cases r2; cases r3; cases r4)
     (auto simp add: putStoredBlock_write_def onWorld_eq emit_def addStat_def failed_def
           intro!: remoteStore.equality)

lemma putStoredBlock_eq:
  fixes s :: "('w, 'blk, 'bi) remoteStore"
  assumes "key = GetBlockPath ''chunks'' (GetBlockHash L (GetBlockIndex L storedBlock))"
    and "NewObject blobClient key (world s) = (Inr obj, w0)"
    and "Exists obj w0 = ((ex, e0), w1)"
    and "WriteStoredBlockToBuffer L storedBlock = (blob, errno)"
    and "s3 = s\<lparr>stats := (stats s)(PutStoredBlock_Count := stats s PutStoredBlock_Count + 1),
                 world := w1,
                 trace := trace s @ [CallNewObject key, CallExists key]\<rparr>"
  shows "putStoredBlock L blobClient storedBlock s =
    (if e0 = None \<and> \<not> ex then
       if errno \<noteq> 0 then (ErrnoToError L errno ErrEIO, s3)
       else if failed (fst (putStoredBlock_write key obj blob s3)) then
         (ErrnoToError L errno ErrEIO,
          addStat PutStoredBlock_FailCount 1 (snd (putStoredBlock_write key obj blob s3)))
       else
         putStoredBlock_send L (GetBlockIndex L storedBlock)
           (addStat PutStoredBlock_Chunk_Count (ucast (GetChunkCount L (GetBlockIndex L storedBlock)))
             (addStat PutStoredBlock_Byte_Count (of_nat (length blob))
               (snd (putStoredBlock_write key obj blob s3))))
     else putStoredBlock_send L (GetBlockIndex L storedBlock) s3)"
  using assms
  by (simp add: putStoredBlock_def onWorld_eq emit_def addStat_def failed_def Let_def
      split: prod.splits)


lemma writes_append: "writes (xs @ ys) = writes xs @ writes ys"
  by (induction xs rule: writes.induct) simp_all

lemma putStoredBlock_send_eq:
  "Copy L bi = (bic, None) \<Longrightarrow>
   putStoredBlock_send L bi s =
     (None, s\<lparr>blockIndexChan := blockIndexChan s @ [bic], trace := trace s @ [SendBlockIndex bic]\<rparr>)"
  by (simp add: putStoredBlock_send_def emit_def)

text \<open>
  Claim C10. A put whose object does not exist yet and whose four write attempts all
  fail: \<^verbatim>\<open>putStoredBlock\<close> adds 1 to \<^verbatim>\<open>PutStoredBlock_FailCount\<close>, sends no block
  index, and returns \<^verbatim>\<open>ErrnoToError(errno, ErrEIO)\<close> where \<^verbatim>\<open>errno\<close> is the status of
  the encoding of the block, which is 0 there; the errors of the writes are not used. The
  worker then calls the completion callback with \<^verbatim>\<open>ErrorToErrno\<close> of that value: with
  a library for which the status 0 is no error and no error is the status 0, the callback
  gets 0, the code of success.
\<close>

theorem putStoredBlock_write_failure_reported_as_success:
  fixes s :: "('w, 'blk, 'bi) remoteStore"
  assumes "key = GetBlockPath ''chunks'' (GetBlockHash L (GetBlockIndex L storedBlock))"
    and "NewObject blobClient key (world s) = (Inr obj, w0)"
    and "Exists obj w0 = ((False, None), w1)"
    and "WriteStoredBlockToBuffer L storedBlock = (blob, 0)"
    and "Write obj blob w1 = (r1, w2)"
    and "Write obj blob w2 = (r2, w3)"
    and "Write obj blob w3 = (r3, w4)"
    and "Write obj blob w4 = (r4, w5)"
    and "failed r1" and "failed r2" and "failed r3" and "failed r4"
    and "putStoredBlock L blobClient storedBlock s = (err, s')"
    and "accessType \<noteq> ReadOnly"
  shows "err = ErrnoToError L 0 ErrEIO
       \<and> stats s' PutStoredBlock_FailCount = stats s PutStoredBlock_FailCount + 1
       \<and> writes (trace s') = writes (trace s) @ [(key, blob), (key, blob), (key, blob), (key, blob)]
       \<and> world s' = w5
       \<and> blockIndexChan s' = blockIndexChan s
       \<and> remoteWorker_put L blobClient accessType
            \<lparr>put_storedBlock = storedBlock, put_asyncCompleteAPI = cb\<rparr> s =
          emit (PutOnComplete cb (ErrorToErrno L (ErrnoToError L 0 ErrEIO) EIO)) s'
       \<and> (ErrnoToError L 0 ErrEIO = None \<and> ErrorToErrno L None EIO = 0 \<longrightarrow>
            remoteWorker_put L blobClient accessType
              \<lparr>put_storedBlock = storedBlock, put_asyncCompleteAPI = cb\<rparr> s =
            emit (PutOnComplete cb 0) s')"
proof -
  define s3 where "s3 = s\<lparr>stats := (stats s)(PutStoredBlock_Count := stats s PutStoredBlock_Count + 1),
                 world := w1,
                 trace := trace s @ [CallNewObject key, CallExists key]\<rparr>"
  have w: "Write obj blob (world s3) = (r1, w2)"
    using assms(5) by (simp add: s3_def)
  note ladder = putStoredBlock_write_eq [OF w assms(6,7,8), of key]
  have "putStoredBlock L blobClient storedBlock s =
          (ErrnoToError L 0 ErrEIO,
           addStat PutStoredBlock_FailCount 1 (snd (putStoredBlock_write key obj blob s3)))"
    using putStoredBlock_eq [OF assms(1,2,3,4) s3_def] ladder assms(9-12) by simp
  then have *: "err = ErrnoToError L 0 ErrEIO"
    "s' = addStat PutStoredBlock_FailCount 1 (snd (putStoredBlock_write key obj blob s3))"
    using assms(13) by simp_all
  have put: "remoteWorker_put L blobClient accessType
            \<lparr>put_storedBlock = storedBlock, put_asyncCompleteAPI = cb\<rparr> s =
          emit (PutOnComplete cb (ErrorToErrno L err EIO)) s'"
    using assms(13,14) by (simp add: remoteWorker_put_def)
  show ?thesis
    using * ladder assms(9-12) put
    by (simp add: addStat_def s3_def writes_append)
qed

theorem putStoredBlock_write_failure_reported_as_success_witness:
  "fst (putStoredBlock ex_lib ex_client (Some (7, 100))
         (ex_store \<lparr>objects = (\<lambda>k. None), faults = 4, drifts = 0\<rparr>)) = None
   \<and> stats (snd (putStoredBlock ex_lib ex_client (Some (7, 100))
         (ex_store \<lparr>objects = (\<lambda>k. None), faults = 4, drifts = 0\<rparr>))) PutStoredBlock_FailCount = 1
   \<and> objects (world (snd (putStoredBlock ex_lib ex_client (Some (7, 100))
         (ex_store \<lparr>objects = (\<lambda>k. None), faults = 4, drifts = 0\<rparr>)))) = (\<lambda>k. None)
   \<and> trace (remoteWorker_put ex_lib ex_client ReadWrite
         \<lparr>put_storedBlock = Some (7, 100), put_asyncCompleteAPI = 1\<rparr>
         (ex_store \<lparr>objects = (\<lambda>k. None), faults = 4, drifts = 0\<rparr>)) =
       trace (snd (putStoredBlock ex_lib ex_client (Some (7, 100))
         (ex_store \<lparr>objects = (\<lambda>k. None), faults = 4, drifts = 0\<rparr>))) @ [PutOnComplete 1 0]"
proof -
  let ?w = "\<lambda>n. \<lparr>objects = (\<lambda>k. None), faults = n, drifts = 0\<rparr>"
  let ?key = "GetBlockPath ''chunks'' (GetBlockHash ex_lib (GetBlockIndex ex_lib (Some (7, 100))))"
  let ?blob = "[7, 100] :: bytes"
  have n: "NewObject ex_client ?key (world (ex_store (?w 4))) = (Inr (ex_object ?key), ?w 4)"
    by (simp add: ex_client_def ex_store_def)
  have x: "Exists (ex_object ?key) (?w 4) = ((False, None), ?w 4)"
    by (simp add: ex_object_def)
  have b: "WriteStoredBlockToBuffer ex_lib (Some (7, 100)) = (?blob, 0)"
    by (simp add: ex_lib_def)
  have w1: "Write (ex_object ?key) ?blob (?w 4) = ((False, Some (BlobError 1)), ?w 3)"
    by (simp add: ex_object_def)
  have w2: "Write (ex_object ?key) ?blob (?w 3) = ((False, Some (BlobError 1)), ?w 2)"
    by (simp add: ex_object_def)
  have w3: "Write (ex_object ?key) ?blob (?w 2) = ((False, Some (BlobError 1)), ?w 1)"
    by (simp add: ex_object_def)
  have w4: "Write (ex_object ?key) ?blob (?w 1) = ((False, Some (BlobError 1)), ?w 0)"
    by (simp add: ex_object_def)
  have f: "failed (False, Some (BlobError 1))"
    by (simp add: failed_def)
  have a: "ReadWrite \<noteq> ReadOnly"
    by simp
  have e: "ErrnoToError ex_lib 0 ErrEIO = None \<and> ErrorToErrno ex_lib None EIO = 0"
    by (simp add: ex_lib_def ex_ErrnoToError_def ex_ErrorToErrno_def)
  show ?thesis
    using putStoredBlock_write_failure_reported_as_success
      [OF refl n x b w1 w2 w3 w4 f f f f surjective_pairing a, of 1] e
    by (simp add: ex_store_def emit_def)
qed

lemma putStoredBlock_ex_client:
  fixes t :: "(ex_world, 'blk, 'bi) remoteStore"
  assumes "key = GetBlockPath ''chunks'' (GetBlockHash L (GetBlockIndex L storedBlock))"
    and "faults (world t) = 0" and "drifts (world t) = 0"
    and "WriteStoredBlockToBuffer L storedBlock = (blob, 0)"
    and "Copy L (GetBlockIndex L storedBlock) = (bic, None)"
    and "putStoredBlock L ex_client storedBlock t = (err, t')"
  shows "err = None \<and> faults (world t') = 0 \<and> drifts (world t') = 0
       \<and> objects (world t') key \<noteq> None
       \<and> writes (trace t') =
           writes (trace t) @ (if objects (world t) key = None then [(key, blob)] else [])
       \<and> blockIndexChan t' = blockIndexChan t @ [bic]"
proof -
  define s3 where "s3 = t\<lparr>stats := (stats t)(PutStoredBlock_Count := stats t PutStoredBlock_Count + 1),
                 world := world t,
                 trace := trace t @ [CallNewObject key, CallExists key]\<rparr>"
  have n: "NewObject ex_client key (world t) = (Inr (ex_object key), world t)"
    by (simp add: ex_client_def)
  have x: "Exists (ex_object key) (world t) = ((objects (world t) key \<noteq> None, None), world t)"
    by (simp add: ex_object_def)
  note eq = putStoredBlock_eq [OF assms(1) n x assms(4) s3_def]
  show ?thesis
  proof (cases "objects (world t) key")
    case None
    have w1: "Write (ex_object key) blob (world s3) =
        ((True, None), (world t)\<lparr>objects := (objects (world t))(key \<mapsto> blob)\<rparr>)"
      using assms(2,3) by (simp add: ex_object_def s3_def)
    obtain r2 w3 r3 w4 r4 w5 where
      w2: "Write (ex_object key) blob ((world t)\<lparr>objects := (objects (world t))(key \<mapsto> blob)\<rparr>) = (r2, w3)"
      and w3: "Write (ex_object key) blob w3 = (r3, w4)"
      and w4: "Write (ex_object key) blob w4 = (r4, w5)"
      by (metis surj_pair)
    note ladder = putStoredBlock_write_eq [OF w1 w2 w3 w4, of key]
    show ?thesis
      using eq ladder None assms(2,3,5,6)
      by (auto simp add: failed_def putStoredBlock_send_eq addStat_def s3_def writes_append)
  next
    case (Some b)
    then show ?thesis
      using eq assms(2,3,5,6)
      by (auto simp add: putStoredBlock_send_eq s3_def writes_append)
  qed
qed

lemma putStoredBlock_write_shape:
  fixes s :: "('w, 'blk, 'bi) remoteStore"
  assumes "Write obj blob (world s) = (r1, w2)"
    and "Write obj blob w2 = (r2, w3)"
    and "Write obj blob w3 = (r3, w4)"
    and "Write obj blob w4 = (r4, w5)"
  shows "\<exists>r w n evs.
           putStoredBlock_write key obj blob s =
             (r, s\<lparr>world := w,
                   stats := (stats s)(PutStoredBlock_RetryCount := stats s PutStoredBlock_RetryCount + n),
                   trace := trace s @ evs @ [CallWrite key blob]\<rparr>)
           \<and> (failed r \<longleftrightarrow> failed r1 \<and> failed r2 \<and> failed r3 \<and> failed r4)"
proof -
  note eq = putStoredBlock_write_eq [OF assms, of key]
  consider "\<not> failed r1" | "failed r1" "\<not> failed r2" | "failed r1" "failed r2" "\<not> failed r3"
    | "failed r1" "failed r2" "failed r3"
    by blast
  then show ?thesis
  proof cases
    case 1
    have "putStoredBlock_write key obj blob s =
            (r1, s\<lparr>world := w2,
                   stats := (stats s)(PutStoredBlock_RetryCount := stats s PutStoredBlock_RetryCount + 0),
                   trace := trace s @ [] @ [CallWrite key blob]\<rparr>)"
      using eq 1 by simp
    then show ?thesis using 1 by blast
  next
    case 2
    have "putStoredBlock_write key obj blob s =
            (r2, s\<lparr>world := w3,
                   stats := (stats s)(PutStoredBlock_RetryCount := stats s PutStoredBlock_RetryCount + 1),
                   trace := trace s @ [CallWrite key blob,
                     Printf ''Retrying putBlob %s in store %s'' [ArgString key, ArgStore]]
                     @ [CallWrite key blob]\<rparr>)"
      using eq 2 by simp
    then show ?thesis using 2 by blast
  next
    case 3
    have "putStoredBlock_write key obj blob s =
            (r3, s\<lparr>world := w4,
                   stats := (stats s)(PutStoredBlock_RetryCount := stats s PutStoredBlock_RetryCount + 2),
                   trace := trace s @ [CallWrite key blob,
                     Printf ''Retrying putBlob %s in store %s'' [ArgString key, ArgStore],
                     CallWrite key blob,
                     Printf ''Retrying 500 ms delayed putBlob %s in store %s'' [ArgString key, ArgStore],
                     Sleep 500] @ [CallWrite key blob]\<rparr>)"
      using eq 3 by simp
    then show ?thesis using 3 by blast
  next
    case 4
    have "putStoredBlock_write key obj blob s =
            (r4, s\<lparr>world := w5,
                   stats := (stats s)(PutStoredBlock_RetryCount := stats s PutStoredBlock_RetryCount + 3),
                   trace := trace s @ [CallWrite key blob,
                     Printf ''Retrying putBlob %s in store %s'' [ArgString key, ArgStore],
                     CallWrite key blob,
                     Printf ''Retrying 500 ms delayed putBlob %s in store %s'' [ArgString key, ArgStore],
                     Sleep 500, CallWrite key blob,
                     Printf ''Retrying 2 s delayed putBlob %s in store %s'' [ArgString key, ArgStore],
                     Sleep 2000] @ [CallWrite key blob]\<rparr>)"
      using eq 4 by simp
    then show ?thesis using 4 by blast
  qed
qed

text \<open>
  Claim C5. On a store that is not read-only, \<^verbatim>\<open>putStoredBlock\<close> writes the encoded
  block to the key derived from its hash only when the existence check has answered that
  no object is there: after any other answer the trace has no new write. When the object
  is already there, and when it was not and one of the write attempts succeeds, the copy
  of the block index is appended to the block-index channel, the send being the last event
  before \<^verbatim>\<open>putStoredBlock\<close> returns \<^verbatim>\<open>nil\<close>, and the worker then calls the completion
  callback with 0. Hence, on a blob store that answers every call (\<open>ex_client\<close> with no
  fault pending), two puts of the same block in a row return \<^verbatim>\<open>nil\<close> both, send the
  block index twice and make at most one write. The encoding of the block and the copy of
  its index are taken to succeed, and no error to be the status 0.
\<close>

theorem putStoredBlock_writes_only_if_absent:
  fixes s :: "('w, 'blk, 'bi) remoteStore" and t :: "(ex_world, 'blk, 'bi) remoteStore"
  assumes "key = GetBlockPath ''chunks'' (GetBlockHash L (GetBlockIndex L storedBlock))"
    and "NewObject blobClient key (world s) = (Inr obj, w0)"
    and "Exists obj w0 = ((ex, e0), w1)"
    and "WriteStoredBlockToBuffer L storedBlock = (blob, 0)"
    and "Write obj blob w1 = (r1, w2)"
    and "Write obj blob w2 = (r2, w3)"
    and "Write obj blob w3 = (r3, w4)"
    and "Write obj blob w4 = (r4, w5)"
    and "Copy L (GetBlockIndex L storedBlock) = (bic, None)"
    and "putStoredBlock L blobClient storedBlock s = (err, s')"
    and "accessType \<noteq> ReadOnly"
    and "ErrorToErrno L None EIO = 0"
  shows "(ex \<or> e0 \<noteq> None \<longrightarrow> writes (trace s') = writes (trace s))
       \<and> (ex \<and> e0 = None \<longrightarrow>
            err = None \<and> blockIndexChan s' = blockIndexChan s @ [bic]
            \<and> trace s' = trace s @ [CallNewObject key, CallExists key, SendBlockIndex bic])
       \<and> (\<not> ex \<and> e0 = None \<and> \<not> (failed r1 \<and> failed r2 \<and> failed r3 \<and> failed r4) \<longrightarrow>
            err = None \<and> blockIndexChan s' = blockIndexChan s @ [bic]
            \<and> (key, blob) \<in> set (writes (trace s')) \<and> last (trace s') = SendBlockIndex bic)
       \<and> (e0 = None \<and> (ex \<or> \<not> (failed r1 \<and> failed r2 \<and> failed r3 \<and> failed r4)) \<longrightarrow>
            remoteWorker_put L blobClient accessType
              \<lparr>put_storedBlock = storedBlock, put_asyncCompleteAPI = cb\<rparr> s =
            emit (PutOnComplete cb 0) s')
       \<and> (faults (world t) = 0 \<and> drifts (world t) = 0 \<longrightarrow>
            (case putStoredBlock L ex_client storedBlock t of (err1, t1) \<Rightarrow>
               case putStoredBlock L ex_client storedBlock t1 of (err2, t2) \<Rightarrow>
                 err1 = None \<and> err2 = None
                 \<and> length (writes (trace t2)) \<le> length (writes (trace t)) + 1
                 \<and> blockIndexChan t2 = blockIndexChan t @ [bic, bic]))"
proof -
  define s3 where "s3 = s\<lparr>stats := (stats s)(PutStoredBlock_Count := stats s PutStoredBlock_Count + 1),
                 world := w1,
                 trace := trace s @ [CallNewObject key, CallExists key]\<rparr>"
  have w: "Write obj blob (world s3) = (r1, w2)"
    using assms(5) by (simp add: s3_def)
  note eq = putStoredBlock_eq [OF assms(1,2,3,4) s3_def]
  have present: "err = None \<and> blockIndexChan s' = blockIndexChan s @ [bic]
            \<and> trace s' = trace s @ [CallNewObject key, CallExists key, SendBlockIndex bic]"
    if "ex \<or> e0 \<noteq> None"
    using that eq assms(9,10) by (auto simp add: putStoredBlock_send_eq s3_def)
  have written: "err = None \<and> blockIndexChan s' = blockIndexChan s @ [bic]
            \<and> (key, blob) \<in> set (writes (trace s')) \<and> last (trace s') = SendBlockIndex bic"
    if "\<not> ex" "e0 = None" "\<not> (failed r1 \<and> failed r2 \<and> failed r3 \<and> failed r4)"
  proof -
    obtain r w n evs where
      sh: "putStoredBlock_write key obj blob s3 =
             (r, s3\<lparr>world := w,
                   stats := (stats s3)(PutStoredBlock_RetryCount := stats s3 PutStoredBlock_RetryCount + n),
                   trace := trace s3 @ evs @ [CallWrite key blob]\<rparr>)"
      and fl: "failed r \<longleftrightarrow> failed r1 \<and> failed r2 \<and> failed r3 \<and> failed r4"
      using putStoredBlock_write_shape [OF w assms(6,7,8), of key] by blast
    have nf: "\<not> failed r"
      using fl that(3) by simp
    have "putStoredBlock L blobClient storedBlock s =
            putStoredBlock_send L (GetBlockIndex L storedBlock)
              (addStat PutStoredBlock_Chunk_Count (ucast (GetChunkCount L (GetBlockIndex L storedBlock)))
                (addStat PutStoredBlock_Byte_Count (of_nat (length blob))
                  (s3\<lparr>world := w,
                      stats := (stats s3)(PutStoredBlock_RetryCount := stats s3 PutStoredBlock_RetryCount + n),
                      trace := trace s3 @ evs @ [CallWrite key blob]\<rparr>)))"
      using eq that(1,2) sh nf by simp
    then have "(err, s') =
            putStoredBlock_send L (GetBlockIndex L storedBlock)
              (addStat PutStoredBlock_Chunk_Count (ucast (GetChunkCount L (GetBlockIndex L storedBlock)))
                (addStat PutStoredBlock_Byte_Count (of_nat (length blob))
                  (s3\<lparr>world := w,
                      stats := (stats s3)(PutStoredBlock_RetryCount := stats s3 PutStoredBlock_RetryCount + n),
                      trace := trace s3 @ evs @ [CallWrite key blob]\<rparr>)))"
      using assms(10) by simp
    then show ?thesis
      using assms(9)
      by (simp add: putStoredBlock_send_eq addStat_def writes_append s3_def)
  qed
  have put: "remoteWorker_put L blobClient accessType
            \<lparr>put_storedBlock = storedBlock, put_asyncCompleteAPI = cb\<rparr> s =
          emit (PutOnComplete cb (ErrorToErrno L err EIO)) s'"
    using assms(10,11) by (simp add: remoteWorker_put_def)
  have twice: "(case putStoredBlock L ex_client storedBlock t of (err1, t1) \<Rightarrow>
               case putStoredBlock L ex_client storedBlock t1 of (err2, t2) \<Rightarrow>
                 err1 = None \<and> err2 = None
                 \<and> length (writes (trace t2)) \<le> length (writes (trace t)) + 1
                 \<and> blockIndexChan t2 = blockIndexChan t @ [bic, bic])"
    if "faults (world t) = 0" "drifts (world t) = 0"
  proof -
    obtain err1 t1 where p1: "putStoredBlock L ex_client storedBlock t = (err1, t1)"
      by (metis surj_pair)
    obtain err2 t2 where p2: "putStoredBlock L ex_client storedBlock t1 = (err2, t2)"
      by (metis surj_pair)
    note a = putStoredBlock_ex_client [OF assms(1) that assms(4,9) p1]
    from a have f: "faults (world t1) = 0" and d: "drifts (world t1) = 0"
      by simp_all
    note b = putStoredBlock_ex_client [OF assms(1) f d assms(4,9) p2]
    show ?thesis
      using a b p1 p2 by auto
  qed
  have c1: "ex \<or> e0 \<noteq> None \<longrightarrow> writes (trace s') = writes (trace s)"
    using present by (auto simp add: writes_append)
  have c2: "ex \<and> e0 = None \<longrightarrow>
            err = None \<and> blockIndexChan s' = blockIndexChan s @ [bic]
            \<and> trace s' = trace s @ [CallNewObject key, CallExists key, SendBlockIndex bic]"
    using present by blast
  have c3: "\<not> ex \<and> e0 = None \<and> \<not> (failed r1 \<and> failed r2 \<and> failed r3 \<and> failed r4) \<longrightarrow>
            err = None \<and> blockIndexChan s' = blockIndexChan s @ [bic]
            \<and> (key, blob) \<in> set (writes (trace s')) \<and> last (trace s') = SendBlockIndex bic"
    using written by blast
  have "err = None" if "e0 = None" "ex \<or> \<not> (failed r1 \<and> failed r2 \<and> failed r3 \<and> failed r4)"
    using that present written by blast
  then have c4: "e0 = None \<and> (ex \<or> \<not> (failed r1 \<and> failed r2 \<and> failed r3 \<and> failed r4)) \<longrightarrow>
            remoteWorker_put L blobClient accessType
              \<lparr>put_storedBlock = storedBlock, put_asyncCompleteAPI = cb\<rparr> s =
            emit (PutOnComplete cb 0) s'"
    using put assms(12) by simp
  have c5: "faults (world t) = 0 \<and> drifts (world t) = 0 \<longrightarrow>
            (case putStoredBlock L ex_client storedBlock t of (err1, t1) \<Rightarrow>
               case putStoredBlock L ex_client storedBlock t1 of (err2, t2) \<Rightarrow>
                 err1 = None \<and> err2 = None
                 \<and> length (writes (trace t2)) \<le> length (writes (trace t)) + 1
                 \<and> blockIndexChan t2 = blockIndexChan t @ [bic, bic])"
    using twice by simp
  show ?thesis
    by (rule conjI [OF c1 conjI [OF c2 conjI [OF c3 conjI [OF c4 c5]]]])
qed


theorem putStoredBlock_writes_only_if_absent_witness:
  "fst (putStoredBlock ex_lib ex_client (Some (7, 100))
         (ex_store \<lparr>objects = (\<lambda>k. None), faults = 0, drifts = 0\<rparr>)) = None
   \<and> blockIndexChan (snd (putStoredBlock ex_lib ex_client (Some (7, 100))
         (ex_store \<lparr>objects = (\<lambda>k. None), faults = 0, drifts = 0\<rparr>))) = [7]
   \<and> last (trace (snd (putStoredBlock ex_lib ex_client (Some (7, 100))
         (ex_store \<lparr>objects = (\<lambda>k. None), faults = 0, drifts = 0\<rparr>)))) = SendBlockIndex 7
   \<and> remoteWorker_put ex_lib ex_client ReadWrite
         \<lparr>put_storedBlock = Some (7, 100), put_asyncCompleteAPI = 1\<rparr>
         (ex_store \<lparr>objects = (\<lambda>k. None), faults = 0, drifts = 0\<rparr>) =
       emit (PutOnComplete 1 0) (snd (putStoredBlock ex_lib ex_client (Some (7, 100))
         (ex_store \<lparr>objects = (\<lambda>k. None), faults = 0, drifts = 0\<rparr>)))
   \<and> (case putStoredBlock ex_lib ex_client (Some (7, 100))
              (ex_store \<lparr>objects = (\<lambda>k. None), faults = 0, drifts = 0\<rparr>) of
         (err1, t1) \<Rightarrow>
           case putStoredBlock ex_lib ex_client (Some (7, 100)) t1 of
             (err2, t2) \<Rightarrow>
               err1 = None \<and> err2 = None \<and> length (writes (trace t2)) \<le> 1
               \<and> blockIndexChan t2 = [7, 7])"
proof -
  let ?w = "\<lparr>objects = (\<lambda>k. None), faults = 0, drifts = 0\<rparr>"
  let ?key = "GetBlockPath ''chunks'' (GetBlockHash ex_lib (GetBlockIndex ex_lib (Some (7, 100))))"
  let ?blob = "[7, 100] :: bytes"
  have n: "NewObject ex_client ?key (world (ex_store ?w)) = (Inr (ex_object ?key), ?w)"
    by (simp add: ex_client_def ex_store_def)
  have x: "Exists (ex_object ?key) ?w = ((False, None), ?w)"
    by (simp add: ex_object_def)
  have b: "WriteStoredBlockToBuffer ex_lib (Some (7, 100)) = (?blob, 0)"
    by (simp add: ex_lib_def)
  have w1: "Write (ex_object ?key) ?blob ?w = ((True, None), ?w\<lparr>objects := (\<lambda>k. None)(?key \<mapsto> ?blob)\<rparr>)"
    by (simp add: ex_object_def)
  have c: "Copy ex_lib (GetBlockIndex ex_lib (Some (7, 100))) = (7, None)"
    by (simp add: ex_lib_def)
  have a: "ReadWrite \<noteq> ReadOnly"
    by simp
  have e: "ErrorToErrno ex_lib None EIO = 0"
    by (simp add: ex_lib_def ex_ErrorToErrno_def)
  have f: "\<not> failed (True, None)"
    by (simp add: failed_def)
  show ?thesis
    using putStoredBlock_writes_only_if_absent
      [OF refl n x b w1 surjective_pairing surjective_pairing surjective_pairing c
          surjective_pairing a e, of 1 "ex_store ?w"] f
    by (simp add: ex_store_def)
qed

subsection \<open>Getting a block\<close>

lemma getStoredBlock_frame:
  fixes s :: "('w, 'blk, 'bi) remoteStore"
  shows "prefetchBlocks (snd (getStoredBlock L client h s)) = prefetchBlocks s
       \<and> prefetchMemory (snd (getStoredBlock L client h s)) = prefetchMemory s
       \<and> maxPrefetchMemory (snd (getStoredBlock L client h s)) = maxPrefetchMemory s
       \<and> prefetchBlockChan (snd (getStoredBlock L client h s)) = prefetchBlockChan s
       \<and> blockIndexChan (snd (getStoredBlock L client h s)) = blockIndexChan s"
proof -
  obtain r w evs where
    "\<forall>s' :: ('w, 'blk, 'bi) remoteStore. world s' = world s \<longrightarrow>
       readBlobWithRetry client (GetBlockPath ''chunks'' h) s' =
         (r, s'\<lparr>world := w, trace := trace s' @ evs\<rparr>)"
    using readBlobWithRetry_shape [of s client "GetBlockPath ''chunks'' h"] by blast
  then have "readBlobWithRetry client (GetBlockPath ''chunks'' h) (addStat GetStoredBlock_Count 1 s) =
         (r, (addStat GetStoredBlock_Count 1 s)\<lparr>world := w,
               trace := trace (addStat GetStoredBlock_Count 1 s) @ evs\<rparr>)"
    by (simp add: addStat_def)
  then show ?thesis
    by (simp add: getStoredBlock_def addStat_def Let_def split: prod.split option.split)
qed

lemma getStoredBlock_world:
  fixes s s' :: "('w, 'blk, 'bi) remoteStore"
  assumes "world s' = world s"
  shows "fst (getStoredBlock L client h s') = fst (getStoredBlock L client h s)"
proof -
  obtain r w evs where
    rb: "\<forall>s' :: ('w, 'blk, 'bi) remoteStore. world s' = world s \<longrightarrow>
       readBlobWithRetry client (GetBlockPath ''chunks'' h) s' =
         (r, s'\<lparr>world := w, trace := trace s' @ evs\<rparr>)"
    using readBlobWithRetry_shape [of s client "GetBlockPath ''chunks'' h"] by blast
  have a: "readBlobWithRetry client (GetBlockPath ''chunks'' h) (addStat GetStoredBlock_Count 1 s) =
         (r, (addStat GetStoredBlock_Count 1 s)\<lparr>world := w,
               trace := trace (addStat GetStoredBlock_Count 1 s) @ evs\<rparr>)"
    using rb by (simp add: addStat_def)
  have b: "readBlobWithRetry client (GetBlockPath ''chunks'' h) (addStat GetStoredBlock_Count 1 s') =
         (r, (addStat GetStoredBlock_Count 1 s')\<lparr>world := w,
               trace := trace (addStat GetStoredBlock_Count 1 s') @ evs\<rparr>)"
    using rb assms by (simp add: addStat_def)
  show ?thesis
    using a b
    by (simp add: getStoredBlock_def Let_def split: prod.split option.split)
qed

lemma getStoredBlock_mismatch:
  fixes s :: "('w, 'blk, 'bi) remoteStore"
  assumes "fst (readBlobWithRetry client (GetBlockPath ''chunks'' blockHash) s) = (Some data, retryCount, None)"
    and "ReadStoredBlockFromBuffer L data = (blk, 0)"
    and "GetBlockHash L (GetBlockIndex L blk) \<noteq> blockHash"
  shows "fst (getStoredBlock L client blockHash s) = (NoStoredBlock L, ErrnoToError L EBADF ErrEBADF)
       \<and> stats (snd (getStoredBlock L client blockHash s)) GetStoredBlock_FailCount =
           stats s GetStoredBlock_FailCount + 1"
proof -
  obtain r w evs where
    rb: "\<forall>s' :: ('w, 'blk, 'bi) remoteStore. world s' = world s \<longrightarrow>
       readBlobWithRetry client (GetBlockPath ''chunks'' blockHash) s' =
         (r, s'\<lparr>world := w, trace := trace s' @ evs\<rparr>)"
    using readBlobWithRetry_shape [of s client "GetBlockPath ''chunks'' blockHash"] by blast
  then have r: "r = (Some data, retryCount, None)"
    using assms(1) by simp
  have a: "readBlobWithRetry client (GetBlockPath ''chunks'' blockHash) (addStat GetStoredBlock_Count 1 s) =
         (r, (addStat GetStoredBlock_Count 1 s)\<lparr>world := w,
               trace := trace (addStat GetStoredBlock_Count 1 s) @ evs\<rparr>)"
    using rb by (simp add: addStat_def)
  show ?thesis
    using a r assms(2,3)
    by (simp add: getStoredBlock_def Let_def addStat_def)
qed


text \<open>
  Claim C6. A get whose bytes decode to a block with another hash than the one asked for:
  \<^verbatim>\<open>getStoredBlock\<close> returns the zero block and \<^verbatim>\<open>ErrnoToError(EBADF, ErrEBADF)\<close>,
  the bad-file error, and \<^verbatim>\<open>GetStoredBlock_FailCount\<close> has grown by 1. The cache is not
  touched by \<^verbatim>\<open>getStoredBlock\<close>; \<^verbatim>\<open>prefetchBlock\<close> returns on the error and leaves
  the empty slot it had installed (or the map as it was, when the hash was a key
  already) and \<^verbatim>\<open>prefetchMemory\<close> as it was; \<^verbatim>\<open>fetchBlock\<close>, when it does the read,
  leaves a tombstone and completes the get with the error. The block read is stored
  nowhere.
\<close>

theorem getStoredBlock_hash_mismatch:
  fixes s :: "('w, 'blk, 'bi) remoteStore"
  assumes "fst (readBlobWithRetry client (GetBlockPath ''chunks'' blockHash) s) = (Some data, retryCount, None)"
    and "ReadStoredBlockFromBuffer L data = (blk, 0)"
    and "GetBlockHash L (GetBlockIndex L blk) \<noteq> blockHash"
    and "ErrnoToError L EBADF ErrEBADF = Some ErrEBADF"
  shows "fst (getStoredBlock L client blockHash s) = (NoStoredBlock L, Some ErrEBADF)
       \<and> stats (snd (getStoredBlock L client blockHash s)) GetStoredBlock_FailCount =
           stats s GetStoredBlock_FailCount + 1
       \<and> prefetchBlocks (snd (getStoredBlock L client blockHash s)) = prefetchBlocks s
       \<and> prefetchBlocks (prefetchBlock L client blockHash s) =
           (case prefetchBlocks s blockHash of
              None \<Rightarrow> (prefetchBlocks s)(blockHash \<mapsto>
                        Some \<lparr>pending_storedBlock = NoStoredBlock L, pending_completeCallbacks = []\<rparr>)
            | Some slot \<Rightarrow> prefetchBlocks s)
       \<and> prefetchMemory (prefetchBlock L client blockHash s) = prefetchMemory s
       \<and> (prefetchBlocks s blockHash = None \<or> prefetchBlocks s blockHash = Some None \<longrightarrow>
            (\<exists>s'. fetchBlock L client \<lparr>get_blockHash = blockHash, get_asyncCompleteAPI = cb\<rparr> s = Some s'
               \<and> prefetchBlocks s' = (prefetchBlocks s)(blockHash \<mapsto> None)
               \<and> prefetchMemory s' = prefetchMemory s
               \<and> last (trace s') =
                   GetOnComplete cb (NoStoredBlock L) (ErrorToErrno L (Some ErrEBADF) EIO)))"
proof -
  note mm = getStoredBlock_mismatch [OF assms(1,2,3)]
  have g: "fst (getStoredBlock L client blockHash s') = (NoStoredBlock L, Some ErrEBADF)"
    if "world s' = world s" for s' :: "('w, 'blk, 'bi) remoteStore"
    using getStoredBlock_world [OF that, of L client blockHash] mm assms(4) by simp
  have c1: "fst (getStoredBlock L client blockHash s) = (NoStoredBlock L, Some ErrEBADF)"
    using g by simp
  have c2: "stats (snd (getStoredBlock L client blockHash s)) GetStoredBlock_FailCount =
           stats s GetStoredBlock_FailCount + 1"
    using mm by simp
  have c3: "prefetchBlocks (snd (getStoredBlock L client blockHash s)) = prefetchBlocks s"
    using getStoredBlock_frame [of L client blockHash s] by simp
  let ?slot = "\<lparr>pending_storedBlock = NoStoredBlock L, pending_completeCallbacks = []\<rparr>"
  let ?s1 = "s\<lparr>prefetchBlocks := (prefetchBlocks s)(blockHash \<mapsto> Some ?slot)\<rparr>"
  obtain s2 where s2: "getStoredBlock L client blockHash ?s1 = ((NoStoredBlock L, Some ErrEBADF), s2)"
    using g [of ?s1] by (cases "getStoredBlock L client blockHash ?s1") simp
  have f2: "prefetchBlocks s2 = prefetchBlocks ?s1" "prefetchMemory s2 = prefetchMemory s"
    using getStoredBlock_frame [of L client blockHash ?s1] s2 by simp_all
  have c4: "prefetchBlocks (prefetchBlock L client blockHash s) =
           (case prefetchBlocks s blockHash of
              None \<Rightarrow> (prefetchBlocks s)(blockHash \<mapsto> Some ?slot)
            | Some slot \<Rightarrow> prefetchBlocks s)"
    using s2 f2
    by (simp add: prefetchBlock_def prefetchBlock_end_def prefetchBlock_begin_def split: option.split)
  have c5: "prefetchMemory (prefetchBlock L client blockHash s) = prefetchMemory s"
    using s2 f2
    by (simp add: prefetchBlock_def prefetchBlock_end_def prefetchBlock_begin_def split: option.split)
  have c6: "\<exists>s'. fetchBlock L client \<lparr>get_blockHash = blockHash, get_asyncCompleteAPI = cb\<rparr> s = Some s'
               \<and> prefetchBlocks s' = (prefetchBlocks s)(blockHash \<mapsto> None)
               \<and> prefetchMemory s' = prefetchMemory s
               \<and> last (trace s') =
                   GetOnComplete cb (NoStoredBlock L) (ErrorToErrno L (Some ErrEBADF) EIO)"
    if "prefetchBlocks s blockHash = None \<or> prefetchBlocks s blockHash = Some None"
    using that s2 f2
    by (auto simp add: fetchBlock_def fetchBlock_end_def fetchBlock_begin_def fetchBlock_finish_def
        emit_def)
  show ?thesis
    using c1 c2 c3 c4 c5 c6 by blast
qed

theorem getStoredBlock_hash_mismatch_witness:
  "fst (getStoredBlock ex_lib ex_client 7
          (ex_store \<lparr>objects = [GetBlockPath ''chunks'' 7 \<mapsto> [8, 100]], faults = 0, drifts = 0\<rparr>)) =
     (None, Some ErrEBADF)
   \<and> stats (snd (getStoredBlock ex_lib ex_client 7
          (ex_store \<lparr>objects = [GetBlockPath ''chunks'' 7 \<mapsto> [8, 100]], faults = 0, drifts = 0\<rparr>)))
        GetStoredBlock_FailCount = 1
   \<and> prefetchBlocks (prefetchBlock ex_lib ex_client 7
          (ex_store \<lparr>objects = [GetBlockPath ''chunks'' 7 \<mapsto> [8, 100]], faults = 0, drifts = 0\<rparr>)) =
        [7 \<mapsto> Some \<lparr>pending_storedBlock = None, pending_completeCallbacks = []\<rparr>]
   \<and> prefetchMemory (prefetchBlock ex_lib ex_client 7
          (ex_store \<lparr>objects = [GetBlockPath ''chunks'' 7 \<mapsto> [8, 100]], faults = 0, drifts = 0\<rparr>)) = 0"
proof -
  let ?k = "GetBlockPath ''chunks'' 7"
  let ?w = "\<lparr>objects = [?k \<mapsto> [8, 100 :: 8 word]], faults = 0, drifts = 0\<rparr>"
  have n: "NewObject ex_client ?k (world (ex_store ?w)) = (Inr (ex_object ?k), ?w)"
    by (simp add: ex_client_def ex_store_def)
  have x: "Exists (ex_object ?k) ?w = ((True, None), ?w)"
    by (simp add: ex_object_def)
  have r: "Read (ex_object ?k) ?w = ((Some [8, 100], None), ?w)"
    by (simp add: ex_object_def)
  have rd: "fst (readBlobWithRetry ex_client ?k (ex_store ?w)) = (Some [8, 100], 0, None)"
    using readBlobWithRetry_eq [OF n x r r r r] by simp
  have d: "ReadStoredBlockFromBuffer ex_lib [8, 100] = (Some (8, 100), 0)"
    by (simp add: ex_lib_def)
  have m: "GetBlockHash ex_lib (GetBlockIndex ex_lib (Some (8, 100))) \<noteq> 7"
    by (simp add: ex_lib_def)
  have e: "ErrnoToError ex_lib EBADF ErrEBADF = Some ErrEBADF"
    by (simp add: ex_lib_def ex_ErrnoToError_def EBADF_def ENOENT_def EIO_def)
  show ?thesis
    using getStoredBlock_hash_mismatch [OF rd d m e]
    by (simp add: ex_store_def ex_lib_def)
qed

subsection \<open>The waiters of a prefetch\<close>

lemma completed_append: "completed (xs @ ys) = completed xs @ completed ys"
  by (induction xs rule: completed.induct) simp_all

lemma deliver_emit:
  "\<exists>b e. deliver L storedBlock getErr c s = emit (GetOnComplete c b e) s"
  by (auto simp add: deliver_def Let_def split: prod.split)

lemma prefetchBlock_loop_emits:
  "\<exists>evs. prefetchBlock_loop L storedBlock getErr cbs i s = s\<lparr>trace := trace s @ evs\<rparr>
         \<and> completed evs = map ((!) cbs) [i..<length cbs - 1]"
proof (induction L storedBlock getErr cbs i s rule: prefetchBlock_loop.induct)
  case (1 L storedBlock getErr completeCallbacks i s)
  show ?case
  proof (cases "int i < int (length completeCallbacks) - 1")
    case True
    obtain b e where d: "deliver L storedBlock getErr (completeCallbacks ! i) s =
        emit (GetOnComplete (completeCallbacks ! i) b e) s"
      using deliver_emit [of L storedBlock getErr "completeCallbacks ! i" s] by blast
    obtain evs where
      l: "prefetchBlock_loop L storedBlock getErr completeCallbacks (i + 1)
            (deliver L storedBlock getErr (completeCallbacks ! i) s) =
          (deliver L storedBlock getErr (completeCallbacks ! i) s)
            \<lparr>trace := trace (deliver L storedBlock getErr (completeCallbacks ! i) s) @ evs\<rparr>"
      and c: "completed evs = map ((!) completeCallbacks) [i + 1..<length completeCallbacks - 1]"
      using "1.IH" [OF True] by blast
    have u: "[i..<length completeCallbacks - 1] = i # [i + 1..<length completeCallbacks - 1]"
      using True by (simp add: upt_conv_Cons)
    have "prefetchBlock_loop L storedBlock getErr completeCallbacks i s =
            prefetchBlock_loop L storedBlock getErr completeCallbacks (i + 1)
              (deliver L storedBlock getErr (completeCallbacks ! i) s)"
      using True by (subst prefetchBlock_loop.simps) simp
    then have "prefetchBlock_loop L storedBlock getErr completeCallbacks i s =
            s\<lparr>trace := trace s @ (GetOnComplete (completeCallbacks ! i) b e # evs)\<rparr>"
      using l d by (simp add: emit_def)
    moreover have "completed (GetOnComplete (completeCallbacks ! i) b e # evs) =
            map ((!) completeCallbacks) [i..<length completeCallbacks - 1]"
      using c u by simp
    ultimately show ?thesis by blast
  next
    case False
    then have "prefetchBlock_loop L storedBlock getErr completeCallbacks i s = s\<lparr>trace := trace s @ []\<rparr>"
      by (subst prefetchBlock_loop.simps) simp
    moreover have "completed [] = map ((!) completeCallbacks) [i..<length completeCallbacks - 1]"
      using False by simp
    ultimately show ?thesis by blast
  qed
qed

text \<open>
  Claim C2. The second critical section of \<^verbatim>\<open>prefetchBlock\<close>, reached after a read
  without error, on a slot with \<open>K \<ge> 1\<close> waiters. The loop runs over the indices \<open>i\<close>
  with \<open>1 \<le> i < K - 1\<close> (the bound of the source is \<^verbatim>\<open>i < len(completeCallbacks)-1\<close>),
  so it skips index 0, and the waiter at index 0 is served after it, last. With one waiter
  that waiter is served once. With \<open>K \<ge> 2\<close> waiters \<open>K - 1\<close> callbacks are called, and
  the waiter at index \<open>K - 1\<close> is not among them. The slot becomes a tombstone and
  \<^verbatim>\<open>prefetchMemory\<close> stays.
\<close>

theorem prefetchBlock_serves_all_but_last:
  fixes s :: "('w, 'blk, 'bi) remoteStore"
  assumes "prefetchBlocks s blockHash = Some (Some prefetchedBlock)"
    and "pending_completeCallbacks prefetchedBlock = cbs"
    and "cbs \<noteq> []"
    and "served = map ((!) cbs) [1..<length cbs - 1] @ [cbs ! 0]"
    and "s' = prefetchBlock_finish L blockHash storedBlock None s"
  shows "completed (trace s') = completed (trace s) @ served
       \<and> last (trace s') = GetOnComplete (cbs ! 0) storedBlock (ErrorToErrno L None EIO)
       \<and> (length cbs = 1 \<longrightarrow> served = [cbs ! 0])
       \<and> (2 \<le> length cbs \<longrightarrow> length served = length cbs - 1)
       \<and> (2 \<le> length cbs \<and> distinct cbs \<longrightarrow> last cbs \<notin> set served)
       \<and> prefetchBlocks s' = (prefetchBlocks s)(blockHash \<mapsto> None)
       \<and> prefetchMemory s' = prefetchMemory s"
proof -
  let ?s1 = "s\<lparr>prefetchBlocks := (prefetchBlocks s)(blockHash \<mapsto> None)\<rparr>"
  obtain evs where
    l: "prefetchBlock_loop L storedBlock None cbs 1 ?s1 = ?s1\<lparr>trace := trace ?s1 @ evs\<rparr>"
    and c: "completed evs = map ((!) cbs) [1..<length cbs - 1]"
    using prefetchBlock_loop_emits [of L storedBlock None cbs 1 ?s1] by blast
  have s': "s' = ?s1\<lparr>trace := trace s @ evs @
                [GetOnComplete (cbs ! 0) storedBlock (ErrorToErrno L None EIO)]\<rparr>"
    using assms(1,2,3,5) l by (simp add: prefetchBlock_finish_def emit_def)
  have c1: "completed (trace s') = completed (trace s) @ served"
    using s' c assms(4) by (simp add: completed_append)
  have c2: "last (trace s') = GetOnComplete (cbs ! 0) storedBlock (ErrorToErrno L None EIO)"
    using s' by simp
  have c3: "length cbs = 1 \<longrightarrow> served = [cbs ! 0]"
    using assms(4) by simp
  have c4: "2 \<le> length cbs \<longrightarrow> length served = length cbs - 1"
  proof
    assume "2 \<le> length cbs"
    moreover have "length served = (length cbs - 1 - 1) + 1"
      using assms(4) by simp
    ultimately show "length served = length cbs - 1"
      by arith
  qed
  have c5: "2 \<le> length cbs \<and> distinct cbs \<longrightarrow> last cbs \<notin> set served"
  proof
    assume a: "2 \<le> length cbs \<and> distinct cbs"
    then have n: "last cbs = cbs ! (length cbs - 1)"
      using assms(3) by (simp add: last_conv_nth)
    have d: "cbs ! j \<noteq> cbs ! (length cbs - 1)" if "j < length cbs - 1" for j
      using that a by (simp add: nth_eq_iff_index_eq)
    have "x \<noteq> cbs ! (length cbs - 1)" if "x \<in> set served" for x
    proof -
      from that assms(4) consider "x = cbs ! 0" | j where "x = cbs ! j" "j < length cbs - 1"
        by auto
      then show ?thesis
      proof cases
        case 1
        then show ?thesis using d [of 0] a by simp
      next
        case 2
        then show ?thesis using d [of j] by simp
      qed
    qed
    then show "last cbs \<notin> set served"
      using n by auto
  qed
  have c6: "prefetchBlocks s' = (prefetchBlocks s)(blockHash \<mapsto> None)"
    using s' by simp
  have c7: "prefetchMemory s' = prefetchMemory s"
    using s' by simp
  show ?thesis
    by (rule conjI [OF c1 conjI [OF c2 conjI [OF c3 conjI [OF c4 conjI [OF c5 conjI [OF c6 c7]]]]]])
qed

theorem prefetchBlock_serves_all_but_last_witness:
  "completed (trace (prefetchBlock_finish ex_lib 7 (Some (7, 100)) None
      ((ex_store \<lparr>objects = (\<lambda>k. None), faults = 0, drifts = 0\<rparr>)
         \<lparr>prefetchBlocks := [7 \<mapsto> Some \<lparr>pending_storedBlock = None,
                                          pending_completeCallbacks = [10, 11, 12]\<rparr>]\<rparr>))) = [11, 10]
   \<and> completed (trace (prefetchBlock_finish ex_lib 7 (Some (7, 100)) None
      ((ex_store \<lparr>objects = (\<lambda>k. None), faults = 0, drifts = 0\<rparr>)
         \<lparr>prefetchBlocks := [7 \<mapsto> Some \<lparr>pending_storedBlock = None,
                                          pending_completeCallbacks = [10, 11]\<rparr>]\<rparr>))) = [10]
   \<and> completed (trace (prefetchBlock_finish ex_lib 7 (Some (7, 100)) None
      ((ex_store \<lparr>objects = (\<lambda>k. None), faults = 0, drifts = 0\<rparr>)
         \<lparr>prefetchBlocks := [7 \<mapsto> Some \<lparr>pending_storedBlock = None,
                                          pending_completeCallbacks = [10]\<rparr>]\<rparr>))) = [10]"
proof -
  let ?s = "\<lambda>cbs. (ex_store \<lparr>objects = (\<lambda>k. None), faults = 0, drifts = 0\<rparr>)
         \<lparr>prefetchBlocks := [7 \<mapsto> Some \<lparr>pending_storedBlock = (None :: ex_block),
                                          pending_completeCallbacks = cbs\<rparr>]\<rparr>"
  have p: "prefetchBlocks (?s cbs) 7 =
      Some (Some \<lparr>pending_storedBlock = None, pending_completeCallbacks = cbs\<rparr>)" for cbs
    by simp
  have q: "pending_completeCallbacks
      \<lparr>pending_storedBlock = (None :: ex_block), pending_completeCallbacks = cbs\<rparr> = cbs" for cbs
    by simp
  have u3: "[1..<length [10, 11, 12 :: nat] - 1] = [1]"
    by (simp add: upt_rec)
  have u2: "[1..<length [10, 11 :: nat] - 1] = []"
    by simp
  have t3: "completed (trace (prefetchBlock_finish ex_lib 7 (Some (7, 100)) None (?s [10, 11, 12]))) = [11, 10]"
    using prefetchBlock_serves_all_but_last
      [where L = ex_lib and storedBlock = "Some (7, 100)", OF p q _ refl refl, of "[10, 11, 12]"] u3
    by (simp add: ex_store_def)
  have t2: "completed (trace (prefetchBlock_finish ex_lib 7 (Some (7, 100)) None (?s [10, 11]))) = [10]"
    using prefetchBlock_serves_all_but_last
      [where L = ex_lib and storedBlock = "Some (7, 100)", OF p q _ refl refl, of "[10, 11]"] u2
    by (simp add: ex_store_def)
  have t1: "completed (trace (prefetchBlock_finish ex_lib 7 (Some (7, 100)) None (?s [10]))) = [10]"
    using prefetchBlock_serves_all_but_last
      [where L = ex_lib and storedBlock = "Some (7, 100)", OF p q _ refl refl, of "[10]"]
    by (simp add: ex_store_def)
  show ?thesis
    using t3 t2 t1 by simp
qed

subsection \<open>The worker on a read-only store, and the flush of the cache\<close>

text \<open>
  Claim C4. With the access type \<^verbatim>\<open>ReadOnly\<close>, at each of the three places where the
  loop of the worker receives a put message (the first \<^verbatim>\<open>select\<close>, and the second one
  in both of its forms, which the model reaches with \<open>Default1\<close> or \<open>PutClosed1\<close>), the
  pass does one thing: it calls the completion callback with \<^verbatim>\<open>EACCES\<close>. The blob store
  is not called, so nothing is written, and the block-index channel stays as it was.
\<close>

theorem remoteWorker_readonly_put:
  "remoteWorker_iteration L client ReadOnly keys (Put1 putMsg) sel2 s =
     Returns (s\<lparr>trace := trace s @ [PutOnComplete (put_asyncCompleteAPI putMsg) EACCES]\<rparr>, True)
   \<and> remoteWorker_iteration L client ReadOnly keys Default1 (Put2 putMsg) s =
     Returns (s\<lparr>trace := trace s @ [PutOnComplete (put_asyncCompleteAPI putMsg) EACCES]\<rparr>, True)
   \<and> remoteWorker_iteration L client ReadOnly keys PutClosed1 (Put2 putMsg) s =
     Returns (s\<lparr>trace := trace s @ [PutOnComplete (put_asyncCompleteAPI putMsg) EACCES]\<rparr>, False)
   \<and> writes (trace s @ [PutOnComplete (put_asyncCompleteAPI putMsg) EACCES]) = writes (trace s)
   \<and> blockIndexChan (s\<lparr>trace := trace s @ [PutOnComplete (put_asyncCompleteAPI putMsg) EACCES]\<rparr>) =
       blockIndexChan s
   \<and> world (s\<lparr>trace := trace s @ [PutOnComplete (put_asyncCompleteAPI putMsg) EACCES]\<rparr>) = world s"
  by (simp add: remoteWorker_iteration_def remoteWorker_put_def emit_def writes_append)

theorem remoteWorker_readonly_put_witness:
  "remoteWorker_iteration ex_lib ex_client ReadOnly [] Default1
      (Put2 \<lparr>put_storedBlock = Some (7, 100), put_asyncCompleteAPI = 3\<rparr>)
      (ex_store \<lparr>objects = (\<lambda>k. None), faults = 0, drifts = 0\<rparr>) =
     Returns ((ex_store \<lparr>objects = (\<lambda>k. None), faults = 0, drifts = 0\<rparr>)
                \<lparr>trace := [PutOnComplete 3 13]\<rparr>, True)"
  using remoteWorker_readonly_put [of ex_lib ex_client "[]"
      "\<lparr>put_storedBlock = Some (7, 100), put_asyncCompleteAPI = 3\<rparr>" Flush2
      "ex_store \<lparr>objects = (\<lambda>k. None), faults = 0, drifts = 0\<rparr>"]
  by (simp add: ex_store_def EACCES_def)

lemma flushPrefetch_drain_Nil: "flushPrefetch_drain ms = []"
  by (induction ms) simp_all

lemma flushPrefetch_collect_eq:
  "flushPrefetch_collect keys flushBlocks s =
     (flushBlocks @ [k \<leftarrow> keys. \<not> waited (prefetchBlocks s) k],
      s\<lparr>trace := trace s @
           map (\<lambda>k. Printf ''Somebody is still waiting for prefetch %d'' [ArgHash k])
             [k \<leftarrow> keys. waited (prefetchBlocks s) k]\<rparr>)"
proof (induction keys arbitrary: flushBlocks s)
  case Nil
  then show ?case by simp
next
  case (Cons k ks)
  show ?case
  proof (cases "waited (prefetchBlocks s) k")
    case True
    then obtain v where "prefetchBlocks s k = Some (Some v)" "pending_completeCallbacks v \<noteq> []"
      by (auto simp add: waited_def split: option.splits)
    then show ?thesis
      using True Cons.IH [of flushBlocks
          "emit (Printf ''Somebody is still waiting for prefetch %d'' [ArgHash k]) s"]
      by (simp add: emit_def)
  next
    case False
    then show ?thesis
      using Cons.IH [of "flushBlocks @ [k]" s]
      by (auto simp add: waited_def split: option.splits)
  qed
qed

lemma map_filter_cong_set:
  "(\<And>x. x \<in> set xs \<Longrightarrow> f x = g x) \<Longrightarrow> List.map_filter f xs = List.map_filter g xs"
  by (induction xs) (auto simp add: List.map_filter_simps split: option.split)

lemma flushPrefetch_remove_fold:
  "distinct hs \<Longrightarrow>
   foldl (flushPrefetch_remove L) s hs =
     s\<lparr>prefetchMemory := prefetchMemory s
          - sum_list (map (\<lambda>b. word_of_int (GetBlockSize L b)) (List.map_filter (held L (prefetchBlocks s)) hs)),
       prefetchBlocks := (\<lambda>h. if h \<in> set hs then None else prefetchBlocks s h),
       trace := trace s @ map Dispose (List.map_filter (held L (prefetchBlocks s)) hs)\<rparr>"
proof (induction hs arbitrary: s)
  case Nil
  then show ?case by (simp add: List.map_filter_simps)
next
  case (Cons h hs)
  define s1 where "s1 = flushPrefetch_remove L s h"
  define bs where "bs = List.map_filter (held L (prefetchBlocks s)) hs"
  have d: "distinct hs" and nh: "h \<notin> set hs"
    using Cons.prems by simp_all
  have m1: "prefetchBlocks s1 = (prefetchBlocks s)(h := None)"
    by (simp add: s1_def flushPrefetch_remove_def Let_def emit_def split: option.split)
  have "held L (prefetchBlocks s1) x = held L (prefetchBlocks s) x" if "x \<in> set hs" for x
    using nh that by (auto simp add: held_def m1)
  then have hm: "List.map_filter (held L (prefetchBlocks s1)) hs = bs"
    unfolding bs_def by (rule map_filter_cong_set)
  have ih: "foldl (flushPrefetch_remove L) s1 hs =
     s1\<lparr>prefetchMemory := prefetchMemory s1 - sum_list (map (\<lambda>b. word_of_int (GetBlockSize L b)) bs),
        prefetchBlocks := (\<lambda>h. if h \<in> set hs then None else prefetchBlocks s1 h),
        trace := trace s1 @ map Dispose bs\<rparr>"
    using Cons.IH [OF d, of s1] hm by simp
  show ?case
  proof (cases "held L (prefetchBlocks s) h")
    case None
    then have s1: "s1 = s\<lparr>prefetchBlocks := (prefetchBlocks s)(h := None)\<rparr>"
      by (auto simp add: s1_def flushPrefetch_remove_def held_def Let_def split: option.splits if_splits)
    have "List.map_filter (held L (prefetchBlocks s)) (h # hs) = bs"
      using None by (simp add: List.map_filter_simps bs_def)
    then show ?thesis
      using ih s1 by (auto simp add: s1_def [symmetric] fun_eq_iff intro!: remoteStore.equality)
  next
    case (Some b)
    then have s1: "s1 = s\<lparr>prefetchMemory := prefetchMemory s - word_of_int (GetBlockSize L b),
                       trace := trace s @ [Dispose b],
                       prefetchBlocks := (prefetchBlocks s)(h := None)\<rparr>"
      by (auto simp add: s1_def flushPrefetch_remove_def held_def Let_def emit_def
          split: option.splits if_splits)
    have "List.map_filter (held L (prefetchBlocks s)) (h # hs) = b # bs"
      using Some by (simp add: List.map_filter_simps bs_def)
    then show ?thesis
      using ih s1 by (auto simp add: s1_def [symmetric] fun_eq_iff intro!: remoteStore.equality)
  qed
qed

text \<open>
  Claim C9. \<^verbatim>\<open>flushPrefetch\<close> empties the prefetch channel; then, for \<open>keys\<close> the
  order in which the map is ranged over, it removes from the map each key that is a
  tombstone or whose slot has no callback queued, disposes the block such a slot holds
  and takes its size off \<^verbatim>\<open>prefetchMemory\<close>; a slot with callbacks stays in the map as
  it is, and one line is printed for it. Nothing else of the store changes.
\<close>

theorem flushPrefetch_removes_unwaited:
  fixes s :: "('w, 'blk, 'bi) remoteStore"
  assumes "range_order (prefetchBlocks s) keys"
    and "removed = [k \<leftarrow> keys. \<not> waited (prefetchBlocks s) k]"
    and "disposed = List.map_filter (held L (prefetchBlocks s)) removed"
  shows "flushPrefetch L keys s =
           s\<lparr>prefetchBlockChan := [],
             prefetchBlocks := (\<lambda>h. if waited (prefetchBlocks s) h then prefetchBlocks s h else None),
             prefetchMemory :=
               prefetchMemory s - sum_list (map (\<lambda>b. word_of_int (GetBlockSize L b)) disposed),
             trace := trace s
               @ map (\<lambda>k. Printf ''Somebody is still waiting for prefetch %d'' [ArgHash k])
                   [k \<leftarrow> keys. waited (prefetchBlocks s) k]
               @ map Dispose disposed\<rparr>
       \<and> set removed = {k \<in> dom (prefetchBlocks s). \<not> waited (prefetchBlocks s) k}"
proof -
  let ?s1 = "s\<lparr>prefetchBlockChan := flushPrefetch_drain (prefetchBlockChan s)\<rparr>"
  let ?s2 = "?s1\<lparr>trace := trace ?s1 @
           map (\<lambda>k. Printf ''Somebody is still waiting for prefetch %d'' [ArgHash k])
             [k \<leftarrow> keys. waited (prefetchBlocks ?s1) k]\<rparr>"
  have dk: "distinct keys" and sk: "set keys = dom (prefetchBlocks s)"
    using assms(1) by (simp_all add: range_order_def)
  have c: "flushPrefetch_collect keys [] ?s1 = (removed, ?s2)"
    using flushPrefetch_collect_eq [of keys "[]" ?s1] assms(2) by simp
  have dr: "distinct removed"
    using dk assms(2) by simp
  have s': "flushPrefetch L keys s = foldl (flushPrefetch_remove L) ?s2 removed"
    using c by (simp add: flushPrefetch_def)
  have "prefetchBlocks ?s2 = prefetchBlocks s"
    by simp
  note f = flushPrefetch_remove_fold [OF dr, of L ?s2, unfolded this]
  have c2: "set removed = {k \<in> dom (prefetchBlocks s). \<not> waited (prefetchBlocks s) k}"
    using sk assms(2) by auto
  have "(if h \<in> set removed then None else prefetchBlocks s h) =
        (if waited (prefetchBlocks s) h then prefetchBlocks s h else None)" for h
    using c2 by (auto simp add: waited_def dom_def)
  then have m: "(\<lambda>h. if h \<in> set removed then None else prefetchBlocks s h) =
        (\<lambda>h. if waited (prefetchBlocks s) h then prefetchBlocks s h else None)"
    by (rule ext)
  have "flushPrefetch L keys s =
           s\<lparr>prefetchBlockChan := [],
             prefetchBlocks := (\<lambda>h. if waited (prefetchBlocks s) h then prefetchBlocks s h else None),
             prefetchMemory :=
               prefetchMemory s - sum_list (map (\<lambda>b. word_of_int (GetBlockSize L b)) disposed),
             trace := trace s
               @ map (\<lambda>k. Printf ''Somebody is still waiting for prefetch %d'' [ArgHash k])
                   [k \<leftarrow> keys. waited (prefetchBlocks s) k]
               @ map Dispose disposed\<rparr>"
    unfolding s' f m assms(3)
    by (auto simp add: flushPrefetch_drain_Nil intro!: remoteStore.equality)
  then show ?thesis
    using c2 by (rule conjI)
qed

theorem flushPrefetch_removes_unwaited_witness:
  "flushPrefetch ex_lib [1, 2, 3]
     ((ex_store \<lparr>objects = (\<lambda>k. None), faults = 0, drifts = 0\<rparr>)
        \<lparr>prefetchMemory := 100, prefetchBlockChan := [9, 9],
         prefetchBlocks :=
           [1 \<mapsto> None,
            2 \<mapsto> Some \<lparr>pending_storedBlock = Some (2, 100), pending_completeCallbacks = []\<rparr>,
            3 \<mapsto> Some \<lparr>pending_storedBlock = None, pending_completeCallbacks = [5]\<rparr>]\<rparr>) =
   (ex_store \<lparr>objects = (\<lambda>k. None), faults = 0, drifts = 0\<rparr>)
        \<lparr>prefetchMemory := 0, prefetchBlockChan := [],
         prefetchBlocks :=
           [3 \<mapsto> Some \<lparr>pending_storedBlock = None, pending_completeCallbacks = [5]\<rparr>],
         trace := [Printf ''Somebody is still waiting for prefetch %d'' [ArgHash 3],
                   Dispose (Some (2, 100))]\<rparr>"
proof -
  let ?m = "[1 \<mapsto> None,
            2 \<mapsto> Some \<lparr>pending_storedBlock = Some (2, 100), pending_completeCallbacks = []\<rparr>,
            3 \<mapsto> Some \<lparr>pending_storedBlock = (None :: ex_block), pending_completeCallbacks = [5]\<rparr>]
            :: uint64 \<Rightarrow> ex_block pendingPrefetchedBlock option option"
  let ?s = "(ex_store \<lparr>objects = (\<lambda>k. None), faults = 0, drifts = 0\<rparr>)
        \<lparr>prefetchMemory := 100, prefetchBlockChan := [9, 9], prefetchBlocks := ?m\<rparr>"
  have r: "range_order (prefetchBlocks ?s) [1, 2, 3]"
    by (auto simp add: range_order_def)
  show ?thesis
    using flushPrefetch_removes_unwaited [OF r refl refl, of ex_lib]
    by (auto simp add: ex_store_def ex_lib_def waited_def held_def List.map_filter_simps fun_eq_iff
        intro!: remoteStore.equality)
qed

subsection \<open>The memory counter of the cache\<close>

lemma getStoredBlock_ex_present:
  fixes s :: "(ex_world, 'blk, 'bi) remoteStore"
  assumes "objects (world s) (GetBlockPath ''chunks'' h) = Some data"
    and "faults (world s) = 0"
    and "ReadStoredBlockFromBuffer L data = (blk, 0)"
    and "GetBlockHash L (GetBlockIndex L blk) = h"
  shows "fst (getStoredBlock L ex_client h s) = (blk, None)
       \<and> world (snd (getStoredBlock L ex_client h s)) = world s"
proof -
  let ?k = "GetBlockPath ''chunks'' h"
  let ?s1 = "addStat GetStoredBlock_Count 1 s"
  have n: "NewObject ex_client ?k (world ?s1) = (Inr (ex_object ?k), world s)"
    by (simp add: ex_client_def addStat_def)
  have x: "Exists (ex_object ?k) (world s) = ((True, None), world s)"
    using assms(1) by (simp add: ex_object_def)
  have r: "Read (ex_object ?k) (world s) = ((Some data, None), world s)"
    using assms(1,2) by (simp add: ex_object_def)
  have "readBlobWithRetry ex_client ?k ?s1 =
          ((Some data, 0, None),
           ?s1\<lparr>world := world s, trace := trace ?s1 @ [CallNewObject ?k, CallExists ?k, CallRead ?k]\<rparr>)"
    using readBlobWithRetry_eq [OF n x r r r r] by simp
  then show ?thesis
    using assms(3,4) by (simp add: getStoredBlock_def Let_def addStat_def)
qed

text \<open>
  What the critical sections do keep. With a library whose zero block is not valid, each
  of them leaves \<^verbatim>\<open>prefetchMemory\<close> equal to the memory held if it was so before: the
  first critical sections and the removal of a key by the flush always, the second
  critical sections when the slot they find holds no block.
\<close>

lemma heldMemory_fun_upd:
  "heldMemory L (m(h := v)) =
     heldMemory L m
       - (case held L m h of None \<Rightarrow> 0 | Some b \<Rightarrow> word_of_int (GetBlockSize L b))
       + (case held L (m(h := v)) h of None \<Rightarrow> 0 | Some b \<Rightarrow> word_of_int (GetBlockSize L b))"
proof -
  let ?f = "\<lambda>m k. case held L m k of None \<Rightarrow> (0 :: 64 word) | Some b \<Rightarrow> word_of_int (GetBlockSize L b)"
  have r: "sum (?f m') UNIV = ?f m' h + sum (?f m') (UNIV - {h})" for m'
    by (rule sum.remove) simp_all
  have "sum (?f (m(h := v))) (UNIV - {h}) = sum (?f m) (UNIV - {h})"
    by (rule sum.cong) (simp_all add: held_def)
  then show ?thesis
    using r [of m] r [of "m(h := v)"] by (simp add: heldMemory_def)
qed

lemma prefetchMemory_steps:
  fixes s :: "('w, 'blk, 'bi) remoteStore"
  assumes "prefetchMemory s = heldMemory L (prefetchBlocks s)"
    and "\<not> IsValid L (NoStoredBlock L)"
  shows "prefetchMemory (snd (fetchBlock_begin L getMsg s)) =
           heldMemory L (prefetchBlocks (snd (fetchBlock_begin L getMsg s)))"
    and "prefetchMemory (snd (prefetchBlock_begin L h s)) =
           heldMemory L (prefetchBlocks (snd (prefetchBlock_begin L h s)))"
    and "prefetchMemory (flushPrefetch_remove L s h) =
           heldMemory L (prefetchBlocks (flushPrefetch_remove L s h))"
    and "held L (prefetchBlocks s) h = None \<Longrightarrow> IsValid L blk \<Longrightarrow>
         prefetchMemory (prefetchBlock_finish L h blk None s) =
           heldMemory L (prefetchBlocks (prefetchBlock_finish L h blk None s))"
    and "held L (prefetchBlocks s) (get_blockHash getMsg) = None \<Longrightarrow>
         fetchBlock_finish L getMsg blk err s = Some s' \<Longrightarrow>
         prefetchMemory s' = heldMemory L (prefetchBlocks s')"
proof -
  show "prefetchMemory (snd (fetchBlock_begin L getMsg s)) =
           heldMemory L (prefetchBlocks (snd (fetchBlock_begin L getMsg s)))"
    using assms
    by (auto simp add: fetchBlock_begin_def Let_def emit_def heldMemory_fun_upd held_def
        split: option.splits)
  show "prefetchMemory (snd (prefetchBlock_begin L h s)) =
           heldMemory L (prefetchBlocks (snd (prefetchBlock_begin L h s)))"
    using assms
    by (auto simp add: prefetchBlock_begin_def heldMemory_fun_upd held_def split: option.splits)
  show "prefetchMemory (flushPrefetch_remove L s h) =
           heldMemory L (prefetchBlocks (flushPrefetch_remove L s h))"
    using assms
    by (auto simp add: flushPrefetch_remove_def Let_def emit_def heldMemory_fun_upd held_def
        split: option.splits)
  show "prefetchMemory (prefetchBlock_finish L h blk None s) =
           heldMemory L (prefetchBlocks (prefetchBlock_finish L h blk None s))"
    if "held L (prefetchBlocks s) h = None" "IsValid L blk"
  proof (cases "prefetchBlocks s h")
    case None
    then show ?thesis using assms by (simp add: prefetchBlock_finish_def emit_def)
  next
    case (Some v)
    show ?thesis
    proof (cases v)
      case None
      then show ?thesis using Some assms by (simp add: prefetchBlock_finish_def emit_def)
    next
      case (Some b)
      obtain evs where
        "prefetchBlock_loop L blk None (pending_completeCallbacks b) 1
           (s\<lparr>prefetchBlocks := (prefetchBlocks s)(h \<mapsto> None)\<rparr>) =
         (s\<lparr>prefetchBlocks := (prefetchBlocks s)(h \<mapsto> None)\<rparr>)
           \<lparr>trace := trace (s\<lparr>prefetchBlocks := (prefetchBlocks s)(h \<mapsto> None)\<rparr>) @ evs\<rparr>"
        using prefetchBlock_loop_emits
          [of L blk None "pending_completeCallbacks b" 1
              "s\<lparr>prefetchBlocks := (prefetchBlocks s)(h \<mapsto> None)\<rparr>"] by blast
      then show ?thesis
        using Some \<open>prefetchBlocks s h = Some v\<close> assms that
        by (auto simp add: prefetchBlock_finish_def Let_def emit_def heldMemory_fun_upd held_def)
    qed
  qed
  show "prefetchMemory s' = heldMemory L (prefetchBlocks s')"
    if "held L (prefetchBlocks s) (get_blockHash getMsg) = None"
      "fetchBlock_finish L getMsg blk err s = Some s'"
  proof -
    have f: "prefetchMemory (foldl (\<lambda>s c. deliver L blk err c s) t cbs) = prefetchMemory t
        \<and> prefetchBlocks (foldl (\<lambda>s c. deliver L blk err c s) t cbs) = prefetchBlocks t"
      for t :: "('w, 'blk, 'bi) remoteStore" and cbs
    proof (induction cbs arbitrary: t)
      case Nil
      then show ?case by simp
    next
      case (Cons c cbs)
      obtain b e where "deliver L blk err c t = emit (GetOnComplete c b e) t"
        using deliver_emit [of L blk err c t] by blast
      then show ?case
        using Cons [of "deliver L blk err c t"] by (simp add: emit_def)
    qed
    show ?thesis
      using that assms f
      by (auto simp add: fetchBlock_finish_def Let_def emit_def heldMemory_fun_upd held_def
          split: option.splits)
  qed
qed

text \<open>
  Claim C8 says that whenever no worker is inside \<^verbatim>\<open>fetchBlock\<close> or \<^verbatim>\<open>prefetchBlock\<close>,
  \<^verbatim>\<open>prefetchMemory\<close> is the sum of the sizes of the blocks the slots of the cache
  hold. The run \<open>race_0\<close> to \<open>race_5\<close> ends in such a state and breaks it. The flush
  removes the slot of the prefetch that is reading; the fetch installs a new slot for the
  same hash; the prefetch, back from its read, finds that slot without waiters, stores its
  block there and adds 100 to \<^verbatim>\<open>prefetchMemory\<close>; the fetch, back from its own read,
  takes the (empty) list of waiters and overwrites the slot with a tombstone (line 341)
  without looking at the block in it. At the end the map has the one key 7, a tombstone,
  no slot holds a block, and \<^verbatim>\<open>prefetchMemory\<close> is 100. Where \<^verbatim>\<open>fetchBlock\<close> finds a
  block in a slot in its first critical section (lines 317 to 320) it does take the size
  off.
\<close>

theorem prefetchMemory_not_held_memory:
  "fst (prefetchBlock_begin ex_lib 7 race_0)
   \<and> range_order (prefetchBlocks race_1) [7]
   \<and> fst (fetchBlock_begin ex_lib \<lparr>get_blockHash = 7, get_asyncCompleteAPI = 1\<rparr> race_2)
   \<and> map_option prefetchMemory race_5 = Some 100
   \<and> map_option prefetchBlocks race_5 = Some [7 \<mapsto> None]
   \<and> heldMemory ex_lib [7 \<mapsto> None] = 0"
proof -
  let ?empty = "\<lparr>pending_storedBlock = (None :: ex_block), pending_completeCallbacks = []\<rparr>"
  let ?k = "GetBlockPath ''chunks'' 7"
  let ?w = "\<lparr>objects = [?k \<mapsto> [7, 100 :: 8 word]], faults = 0, drifts = 0\<rparr>"
  have d: "ReadStoredBlockFromBuffer ex_lib [7, 100] = (Some (7, 100), 0)"
    by (simp add: ex_lib_def)
  have hh: "GetBlockHash ex_lib (GetBlockIndex ex_lib (Some (7, 100))) = 7"
    by (simp add: ex_lib_def)
  have c1: "fst (prefetchBlock_begin ex_lib 7 race_0)"
    by (simp add: prefetchBlock_begin_def race_0_def ex_store_def)
  have s1: "race_1 = race_0\<lparr>prefetchBlocks := [7 \<mapsto> Some ?empty]\<rparr>"
    by (simp add: race_1_def prefetchBlock_begin_def race_0_def ex_store_def ex_lib_def)
  have c2: "range_order (prefetchBlocks race_1) [7]"
    by (simp add: s1 range_order_def)
  have s2: "race_2 = race_0\<lparr>prefetchBlocks := (\<lambda>h. None)\<rparr>"
    by (simp add: race_2_def s1 flushPrefetch_def flushPrefetch_remove_def race_0_def ex_store_def
        ex_lib_def fun_eq_iff)
  have c3: "fst (fetchBlock_begin ex_lib \<lparr>get_blockHash = 7, get_asyncCompleteAPI = 1\<rparr> race_2)"
    by (simp add: s2 fetchBlock_begin_def)
  have s3: "race_3 = race_0\<lparr>prefetchBlocks := [7 \<mapsto> Some ?empty]\<rparr>"
    by (simp add: race_3_def s2 fetchBlock_begin_def ex_lib_def)
  have o3: "objects (world race_3) ?k = Some [7, 100]" "faults (world race_3) = 0"
    by (simp_all add: s3 race_0_def ex_store_def)
  note g3 = getStoredBlock_ex_present [OF o3 d hh] getStoredBlock_frame [of ex_lib ex_client 7 race_3]
  obtain t3 where t3: "getStoredBlock ex_lib ex_client 7 race_3 = ((Some (7, 100), None), t3)"
    using g3 by (cases "getStoredBlock ex_lib ex_client 7 race_3") simp
  have f3: "prefetchBlocks t3 = [7 \<mapsto> Some ?empty]" "prefetchMemory t3 = 0" "world t3 = ?w"
    using g3 t3 by (simp_all add: s3 race_0_def ex_store_def)
  have p4: "prefetchBlocks race_4 =
      [7 \<mapsto> Some \<lparr>pending_storedBlock = Some (7, 100), pending_completeCallbacks = []\<rparr>]"
    and m4: "prefetchMemory race_4 = 100" and w4: "world race_4 = ?w"
    using t3 f3 by (simp_all add: race_4_def prefetchBlock_end_def prefetchBlock_finish_def ex_lib_def)
  have o4: "objects (world race_4) ?k = Some [7, 100]" "faults (world race_4) = 0"
    by (simp_all add: w4)
  note g4 = getStoredBlock_ex_present [OF o4 d hh] getStoredBlock_frame [of ex_lib ex_client 7 race_4]
  obtain t4 where t4: "getStoredBlock ex_lib ex_client 7 race_4 = ((Some (7, 100), None), t4)"
    using g4 by (cases "getStoredBlock ex_lib ex_client 7 race_4") simp
  have f4: "prefetchBlocks t4 =
      [7 \<mapsto> Some \<lparr>pending_storedBlock = Some (7, 100), pending_completeCallbacks = []\<rparr>]"
    "prefetchMemory t4 = 100"
    using g4 t4 p4 m4 by simp_all
  have c4: "map_option prefetchMemory race_5 = Some 100"
    using t4 f4 by (simp add: race_5_def fetchBlock_end_def fetchBlock_finish_def emit_def)
  have c5: "map_option prefetchBlocks race_5 = Some [7 \<mapsto> None]"
    using t4 f4 by (simp add: race_5_def fetchBlock_end_def fetchBlock_finish_def emit_def)
  have "held ex_lib [7 \<mapsto> None] k = None" for k
    by (simp add: held_def)
  then have c6: "heldMemory ex_lib [7 \<mapsto> None] = 0"
    by (simp add: heldMemory_def)
  show ?thesis
    by (rule conjI [OF c1 conjI [OF c2 conjI [OF c3 conjI [OF c4 conjI [OF c5 c6]]]]])
qed

subsection \<open>Updating the store index\<close>

lemma updateRemoteStoreIndex_loop_step:
  "tryUpdateRemoteStoreIndex L updatedStoreIndex objHandle w = ((ok, newStoreIndex, err), w') \<Longrightarrow>
   updateRemoteStoreIndex_loop L updatedStoreIndex objHandle w =
     (if ok then Some ((newStoreIndex, None), w')
      else if err \<noteq> None then
        Some ((NoStoreIndex L,
               wrapf err ''updateRemoteStoreIndex: tryUpdateRemoteStoreIndex(%s) failed''), w')
      else updateRemoteStoreIndex_loop L updatedStoreIndex objHandle w')"
  by (subst updateRemoteStoreIndex_loop.simps) simp

text \<open>
  Claim C1. \<^verbatim>\<open>updateRemoteStoreIndex\<close> makes a handle for \<^verbatim>\<open>store.lsi\<close> and runs the
  loop on it. An attempt starts with \<^verbatim>\<open>LockWriteVersion\<close>. When the object existed, the
  attempt reads it, decodes the remote index, merges the new index with it, encodes the
  merged index and writes it: when the write says \<^verbatim>\<open>true\<close> the loop returns the merged
  index, when it says \<^verbatim>\<open>false\<close> (the version has changed) the loop is what it is from
  the blob store the attempt has left, that is, the whole attempt is made again. When the
  object did not exist, the new index is encoded and written, and again \<^verbatim>\<open>false\<close> means
  one more attempt; on \<^verbatim>\<open>true\<close> the loop returns the zero index. (An attempt that ends
  with an error ends the loop with that error, by \<open>updateRemoteStoreIndex_loop_step\<close>.)
\<close>

theorem updateRemoteStoreIndex_retries_on_drift:
  assumes "NewObject blobClient ''store.lsi'' w = (Inr objHandle, w0)"
    and "LockWriteVersion objHandle w0 = ((existed, None), w1)"
  shows "updateRemoteStoreIndex L blobClient updatedStoreIndex w =
           updateRemoteStoreIndex_loop L updatedStoreIndex objHandle w0
       \<and> (existed
            \<and> Read objHandle w1 = ((blob, None), w2)
            \<and> ReadStoreIndexFromBuffer L (slice blob) = (remoteStoreIndex, 0)
            \<and> MergeStoreIndex L updatedStoreIndex remoteStoreIndex = (merged, 0)
            \<and> WriteStoreIndexToBuffer L merged = (mergedBlob, 0)
            \<and> Write objHandle mergedBlob w2 = ((ok, None), w3) \<longrightarrow>
            tryUpdateRemoteStoreIndex L updatedStoreIndex objHandle w0 =
              ((ok, if ok then merged else NoStoreIndex L, None), w3)
            \<and> updateRemoteStoreIndex_loop L updatedStoreIndex objHandle w0 =
              (if ok then Some ((merged, None), w3)
               else updateRemoteStoreIndex_loop L updatedStoreIndex objHandle w3))
       \<and> (\<not> existed
            \<and> WriteStoreIndexToBuffer L updatedStoreIndex = (newBlob, 0)
            \<and> Write objHandle newBlob w1 = ((ok', None), w3') \<longrightarrow>
            tryUpdateRemoteStoreIndex L updatedStoreIndex objHandle w0 =
              ((ok', NoStoreIndex L, None), w3')
            \<and> updateRemoteStoreIndex_loop L updatedStoreIndex objHandle w0 =
              (if ok' then Some ((NoStoreIndex L, None), w3')
               else updateRemoteStoreIndex_loop L updatedStoreIndex objHandle w3'))"
proof -
  have c1: "updateRemoteStoreIndex L blobClient updatedStoreIndex w =
           updateRemoteStoreIndex_loop L updatedStoreIndex objHandle w0"
    using assms(1) by (simp add: updateRemoteStoreIndex_def)
  have c2: "tryUpdateRemoteStoreIndex L updatedStoreIndex objHandle w0 =
              ((ok, if ok then merged else NoStoreIndex L, None), w3)
            \<and> updateRemoteStoreIndex_loop L updatedStoreIndex objHandle w0 =
              (if ok then Some ((merged, None), w3)
               else updateRemoteStoreIndex_loop L updatedStoreIndex objHandle w3)"
    if "existed
            \<and> Read objHandle w1 = ((blob, None), w2)
            \<and> ReadStoreIndexFromBuffer L (slice blob) = (remoteStoreIndex, 0)
            \<and> MergeStoreIndex L updatedStoreIndex remoteStoreIndex = (merged, 0)
            \<and> WriteStoreIndexToBuffer L merged = (mergedBlob, 0)
            \<and> Write objHandle mergedBlob w2 = ((ok, None), w3)"
  proof -
    have t: "tryUpdateRemoteStoreIndex L updatedStoreIndex objHandle w0 =
              ((ok, if ok then merged else NoStoreIndex L, None), w3)"
      using that assms(2) by (simp add: tryUpdateRemoteStoreIndex_def)
    show ?thesis
      using t updateRemoteStoreIndex_loop_step [OF t] by simp
  qed
  have c3: "tryUpdateRemoteStoreIndex L updatedStoreIndex objHandle w0 =
              ((ok', NoStoreIndex L, None), w3')
            \<and> updateRemoteStoreIndex_loop L updatedStoreIndex objHandle w0 =
              (if ok' then Some ((NoStoreIndex L, None), w3')
               else updateRemoteStoreIndex_loop L updatedStoreIndex objHandle w3')"
    if "\<not> existed
            \<and> WriteStoreIndexToBuffer L updatedStoreIndex = (newBlob, 0)
            \<and> Write objHandle newBlob w1 = ((ok', None), w3')"
  proof -
    have t: "tryUpdateRemoteStoreIndex L updatedStoreIndex objHandle w0 =
              ((ok', NoStoreIndex L, None), w3')"
      using that assms(2) by (simp add: tryUpdateRemoteStoreIndex_def)
    show ?thesis
      using t updateRemoteStoreIndex_loop_step [OF t] by simp
  qed
  show ?thesis
    using c1 c2 c3 by blast
qed

theorem updateRemoteStoreIndex_retries_on_drift_witness:
  "updateRemoteStoreIndex ex_lib ex_client [1, 2]
      \<lparr>objects = [''store.lsi'' \<mapsto> [3]], faults = 0, drifts = 1\<rparr> =
     Some (([1, 2, 3], None),
           \<lparr>objects = [''store.lsi'' \<mapsto> [1, 2, 3]], faults = 0, drifts = 0\<rparr>)
   \<and> updateRemoteStoreIndex ex_lib ex_client [1, 2]
      \<lparr>objects = (\<lambda>k. None), faults = 0, drifts = 1\<rparr> =
     Some (([], None),
           \<lparr>objects = [''store.lsi'' \<mapsto> [1, 2]], faults = 0, drifts = 0\<rparr>)"
proof -
  let ?o = "ex_object ''store.lsi''"
  let ?w1 = "\<lparr>objects = [''store.lsi'' \<mapsto> [3 :: 8 word]], faults = 0, drifts = 1\<rparr>"
  let ?w0 = "\<lparr>objects = [''store.lsi'' \<mapsto> [3 :: 8 word]], faults = 0, drifts = 0\<rparr>"
  let ?w' = "\<lparr>objects = [''store.lsi'' \<mapsto> [1, 2, 3 :: 8 word]], faults = 0, drifts = 0\<rparr>"
  let ?v1 = "\<lparr>objects = (\<lambda>k. None) :: string \<Rightarrow> bytes option, faults = 0, drifts = 1\<rparr>"
  let ?v0 = "\<lparr>objects = (\<lambda>k. None) :: string \<Rightarrow> bytes option, faults = 0, drifts = 0\<rparr>"
  let ?v' = "\<lparr>objects = [''store.lsi'' \<mapsto> [1, 2 :: 8 word]], faults = 0, drifts = 0\<rparr>"
  have n: "NewObject ex_client ''store.lsi'' x = (Inr ?o, x)" for x
    by (simp add: ex_client_def)
  have lk1: "LockWriteVersion ?o ?w1 = ((True, None), ?w1)"
    and lk0: "LockWriteVersion ?o ?w0 = ((True, None), ?w0)"
    and lv1: "LockWriteVersion ?o ?v1 = ((False, None), ?v1)"
    and lv0: "LockWriteVersion ?o ?v0 = ((False, None), ?v0)"
    by (simp_all add: ex_object_def)
  have rd1: "Read ?o ?w1 = ((Some [3], None), ?w1)"
    and rd0: "Read ?o ?w0 = ((Some [3], None), ?w0)"
    by (simp_all add: ex_object_def)
  have dc: "ReadStoreIndexFromBuffer ex_lib (slice (Some [3])) = ([3], 0)"
    by (simp add: ex_lib_def slice_def)
  have mg: "MergeStoreIndex ex_lib [1, 2] [3] = ([1, 2, 3], 0)"
    by (simp add: ex_lib_def)
  have e3: "WriteStoreIndexToBuffer ex_lib [1, 2, 3] = ([1, 2, 3], 0)"
    by (simp add: ex_lib_def)
  have e2: "WriteStoreIndexToBuffer ex_lib [1, 2] = ([1, 2], 0)"
    by (simp add: ex_lib_def)
  have wd: "Write ?o [1, 2, 3] ?w1 = ((False, None), ?w0)"
    and ws: "Write ?o [1, 2, 3] ?w0 = ((True, None), ?w')"
    and vd: "Write ?o [1, 2] ?v1 = ((False, None), ?v0)"
    and vs: "Write ?o [1, 2] ?v0 = ((True, None), ?v')"
    by (simp_all add: ex_object_def)
  note t1 = updateRemoteStoreIndex_retries_on_drift [OF n lk1,
      where L = ex_lib and updatedStoreIndex = "[1, 2]" and blob = "Some [3]" and ?w2.0 = ?w1
        and remoteStoreIndex = "[3]" and merged = "[1, 2, 3]" and mergedBlob = "[1, 2, 3]"
        and ok = False and ?w3.0 = ?w0]
  note t0 = updateRemoteStoreIndex_retries_on_drift [OF n lk0,
      where L = ex_lib and updatedStoreIndex = "[1, 2]" and blob = "Some [3]" and ?w2.0 = ?w0
        and remoteStoreIndex = "[3]" and merged = "[1, 2, 3]" and mergedBlob = "[1, 2, 3]"
        and ok = True and ?w3.0 = ?w']
  have a: "updateRemoteStoreIndex ex_lib ex_client [1, 2] ?w1 = Some (([1, 2, 3], None), ?w')"
    using t1 t0 rd1 rd0 dc mg e3 wd ws by simp
  note u1 = updateRemoteStoreIndex_retries_on_drift [OF n lv1,
      where L = ex_lib and updatedStoreIndex = "[1, 2]" and newBlob = "[1, 2]"
        and ok' = False and ?w3' = ?v0]
  note u0 = updateRemoteStoreIndex_retries_on_drift [OF n lv0,
      where L = ex_lib and updatedStoreIndex = "[1, 2]" and newBlob = "[1, 2]"
        and ok' = True and ?w3' = ?v']
  have b: "updateRemoteStoreIndex ex_lib ex_client [1, 2] ?v1 = Some (([], None), ?v')"
    using u1 u0 e2 vd vs by (simp add: ex_lib_def)
  show ?thesis
    using a b by simp
qed

subsection \<open>The path of a block\<close>

lemma length_hexdigits: "length (hexdigits k u) = k"
  by (induction k arbitrary: u) simp_all

lemma unat_and_15: "unat (d AND (15 :: 64 word)) < 16"
proof -
  have "d AND 15 \<le> 15"
    by (simp add: word_and_le1)
  then have "unat (d AND 15) \<le> 15"
    by (simp add: word_le_nat_alt)
  then show ?thesis
    by simp
qed

lemma hexval_table:
  "list_all (\<lambda>n. hexval (''0123456789abcdef'' ! n) = of_nat n) [0..<16]"
  by code_simp

lemma hexval_nth: "n < 16 \<Longrightarrow> hexval (''0123456789abcdef'' ! n) = of_nat n"
  using hexval_table by (simp add: list_all_iff)

lemma hexval_hexdigit: "hexval (hexdigit d) = d AND 15"
  using hexval_nth [OF unat_and_15 [of d]] by (simp add: hexdigit_def)

lemma hexdigit_in: "hexdigit d \<in> set ''0123456789abcdef''"
  unfolding hexdigit_def using unat_and_15 [of d] by (intro nth_mem) simp

lemma set_hexdigits: "set (hexdigits k u) \<subseteq> set ''0123456789abcdef''"
  using hexdigit_in by (induction k arbitrary: u) auto

lemma nibble_join:
  "push_bit 4 (take_bit (4 * k) (drop_bit 4 u)) OR (u AND 15) = take_bit (4 * Suc k) (u :: 64 word)"
proof -
  have "(15 :: 64 word) = mask 4"
    by (simp add: mask_eq_exp_minus_1)
  then show ?thesis
    by (auto simp add: bit_eq_iff bit_simps)
qed

lemma foldl_hexdigits:
  "foldl (\<lambda>acc c. push_bit 4 acc OR hexval c) acc (hexdigits k u) =
     push_bit (4 * k) acc OR take_bit (4 * k) u"
proof (induction k arbitrary: u acc)
  case 0
  then show ?case by simp
next
  case (Suc k)
  have "push_bit 4 (push_bit (4 * k) acc OR take_bit (4 * k) (drop_bit 4 u)) OR (u AND 15) =
        push_bit (4 * Suc k) acc OR take_bit (4 * Suc k) u"
    using nibble_join [of k u]
    by (simp add: push_bit_or push_bit_push_bit or.assoc add.commute)
  then show ?case
    by (simp add: Suc.IH hexval_hexdigit)
qed

lemma parse_hex_hex16: "parse_hex (hex16 h) = h"
  by (simp add: parse_hex_def hex16_def foldl_hexdigits [of 0 16 h, simplified] take_bit_word_eq_self)

lemma split_sep_not_Nil: "split_sep c xs \<noteq> []"
  by (induction xs) (auto split: list.split)

lemma split_sep_append:
  "split_sep c (xs @ c # ys) = split_sep c xs @ split_sep c ys"
proof (induction xs)
  case Nil
  then show ?case by simp
next
  case (Cons x xs)
  obtain e es where "split_sep c xs = e # es"
    using split_sep_not_Nil [of c xs] by (cases "split_sep c xs") auto
  then show ?case
    using Cons by simp
qed

lemma split_sep_single: "c \<notin> set e \<Longrightarrow> split_sep c e = [e]"
  by (induction e) auto

lemma join_sep_snoc:
  "join_sep c (es @ [e]) = (if es = [] then e else join_sep c es @ c # e)"
  by (induction c es rule: join_sep.induct) simp_all

lemma clean_elems_snoc:
  "plain_elem e \<Longrightarrow> clean_elems rooted out (es @ [e]) = clean_elems rooted out es @ [e]"
  by (induction es arbitrary: out) (auto simp add: plain_elem_def split: list.split)

lemma Clean_snoc:
  assumes "plain_elem e" and "CHR ''/'' \<notin> set e"
  shows "Clean (p @ CHR ''/'' # e) =
           (if p = [] \<or> hd p = CHR ''/'' then ''/'' else [])
           @ (if clean_elems (p = [] \<or> hd p = CHR ''/'') [] (split_sep CHR ''/'' p) = [] then e
              else join_sep CHR ''/'' (clean_elems (p = [] \<or> hd p = CHR ''/'') [] (split_sep CHR ''/'' p))
                   @ CHR ''/'' # e)"
proof -
  have s: "split_sep CHR ''/'' (p @ CHR ''/'' # e) = split_sep CHR ''/'' p @ [e]"
    using split_sep_append [of "CHR ''/''" p e] split_sep_single [OF assms(2)] by simp
  have r: "(hd (p @ CHR ''/'' # e) = CHR ''/'') = (p = [] \<or> hd p = CHR ''/'')"
    by (cases p) simp_all
  have ne: "e \<noteq> []"
    using assms(1) by (simp add: plain_elem_def)
  show ?thesis
    using ne by (simp add: Clean_def Let_def s r clean_elems_snoc [OF assms(1)] join_sep_snoc)
qed

lemma Clean_ends:
  assumes "plain_elem e" and "CHR ''/'' \<notin> set e"
  shows "\<exists>pre. Clean (p @ CHR ''/'' # e) = pre @ e"
proof -
  define r where "r = (if p = [] \<or> hd p = CHR ''/'' then ''/'' else [])"
  define X where "X = clean_elems (p = [] \<or> hd p = CHR ''/'') [] (split_sep CHR ''/'' p)"
  have s: "Clean (p @ CHR ''/'' # e) =
             r @ (if X = [] then e else join_sep CHR ''/'' X @ CHR ''/'' # e)"
    unfolding r_def X_def by (rule Clean_snoc [OF assms])
  show ?thesis
  proof (cases "X = []")
    case True
    then have "Clean (p @ CHR ''/'' # e) = r @ e"
      using s by simp
    then show ?thesis
      by (rule exI)
  next
    case False
    then have "Clean (p @ CHR ''/'' # e) = (r @ join_sep CHR ''/'' X @ ''/'') @ e"
      using s by simp
    then show ?thesis
      by (rule exI)
  qed
qed

lemma Clean_not_Nil: "Clean p \<noteq> []"
  by (simp add: Clean_def Let_def)

lemma Clean_plain:
  assumes "plain_elem e" and "CHR ''/'' \<notin> set e"
  shows "Clean e = e"
proof -
  have ne: "e \<noteq> []"
    using assms(1) by (simp add: plain_elem_def)
  then have "hd e \<noteq> CHR ''/''"
    using assms(2) by (cases e) auto
  then show ?thesis
    using ne assms(1) split_sep_single [OF assms(2)]
    by (simp add: Clean_def Let_def plain_elem_def)
qed

lemma Clean_fixed_extend:
  assumes "Clean b = b" and "b \<noteq> ''.''" and "b \<noteq> ''/''"
    and "plain_elem e" and "CHR ''/'' \<notin> set e"
  shows "Clean (b @ CHR ''/'' # e) = b @ CHR ''/'' # e"
proof -
  define X where "X = clean_elems (hd b = CHR ''/'') [] (split_sep CHR ''/'' b)"
  define c where "c = Clean b"
  have ne: "b \<noteq> []"
    using assms(1) Clean_not_Nil [of b] by auto
  have c: "c = (if hd b = CHR ''/'' then CHR ''/'' # join_sep CHR ''/'' X
                else if join_sep CHR ''/'' X = [] then ''.'' else join_sep CHR ''/'' X)"
    using ne by (simp add: c_def Clean_def Let_def X_def)
  have cb: "c = b"
    using assms(1) by (simp add: c_def)
  have s: "Clean (b @ CHR ''/'' # e) =
             (if hd b = CHR ''/'' then ''/'' else [])
             @ (if X = [] then e else join_sep CHR ''/'' X @ CHR ''/'' # e)"
    using Clean_snoc [OF assms(4,5), of b] ne by (simp add: X_def)
  show ?thesis
  proof (cases "hd b = CHR ''/''")
    case True
    then have bb: "c = CHR ''/'' # join_sep CHR ''/'' X"
      using c by simp
    have "X \<noteq> []"
    proof
      assume "X = []"
      then have "c = ''/''"
        using bb by simp
      then show False
        using cb assms(3) by simp
    qed
    then have "Clean (b @ CHR ''/'' # e) = c @ CHR ''/'' # e"
      using s True bb by simp
    then show ?thesis
      by (simp only: cb)
  next
    case False
    have j: "join_sep CHR ''/'' X \<noteq> []"
    proof
      assume "join_sep CHR ''/'' X = []"
      then have "c = ''.''"
        using c False by simp
      then show False
        using cb assms(2) by simp
    qed
    then have bb: "c = join_sep CHR ''/'' X"
      using c False by simp
    have "X \<noteq> []"
      using j by auto
    then have "Clean (b @ CHR ''/'' # e) = c @ CHR ''/'' # e"
      using s False bb by simp
    then show ?thesis
      by (simp only: cb)
  qed
qed

lemma Join_fixed:
  assumes "Clean b = b" and "b \<noteq> ''.''" and "b \<noteq> ''/''"
    and "plain_elem e" and "CHR ''/'' \<notin> set e"
  shows "Join [b, e] = b @ CHR ''/'' # e"
proof -
  have "b \<noteq> []"
    using assms(1) Clean_not_Nil [of b] by auto
  then show ?thesis
    using Clean_fixed_extend [OF assms] by (simp add: Join_def)
qed

lemma Join_ends:
  assumes "plain_elem e" and "CHR ''/'' \<notin> set e"
  shows "\<exists>pre. Join [b, e] = pre @ e"
proof (cases "b = []")
  case True
  have "e \<noteq> []"
    using assms(1) by (simp add: plain_elem_def)
  then have "Join [b, e] = [] @ e"
    using True Clean_plain [OF assms] by (simp add: Join_def)
  then show ?thesis by blast
next
  case False
  then show ?thesis
    using Clean_ends [OF assms, of b] by (simp add: Join_def)
qed

lemma Join_not_Nil: "e \<noteq> [] \<Longrightarrow> Join [b, e] \<noteq> []"
  using Clean_not_Nil by (cases "b = []") (simp_all add: Join_def)

lemma Replace_backslash_id: "backslash \<notin> set xs \<Longrightarrow> Replace_backslash xs = xs"
  by (induction xs) (auto simp add: Replace_backslash_def)

lemma Replace_backslash_append:
  "Replace_backslash (xs @ ys) = Replace_backslash xs @ Replace_backslash ys"
  by (simp add: Replace_backslash_def)

lemma plain_elem_length: "2 < length e \<Longrightarrow> plain_elem e"
  by (auto simp add: plain_elem_def)

lemma backslash_not_in_Replace: "backslash \<notin> set (Replace_backslash xs)"
  by (auto simp add: Replace_backslash_def backslash_def)

lemma hex16_facts:
  "length (hex16 h) = 16" "set (hex16 h) \<subseteq> set ''0123456789abcdef''"
  unfolding hex16_def by (rule length_hexdigits, rule set_hexdigits)

lemma hex_alphabet_plain:
  assumes "set xs \<subseteq> set ''0123456789abcdef''"
  shows "CHR ''/'' \<notin> set xs" "CHR ''.'' \<notin> set xs" "backslash \<notin> set xs"
  using assms by (auto simp add: backslash_def)

text \<open>
  Claim C3, as amended. The claim gives the path as the base path, a slash, characters 2
  to 5 of the sixteen digits, \<^verbatim>\<open>/0x\<close>, the sixteen digits and \<^verbatim>\<open>.lsb\<close>, for every base
  path. \<^verbatim>\<open>GetBlockPath\<close> slices the file name, whose first two characters are \<^verbatim>\<open>0x\<close>, so
  the directory is the first four digits; it joins with \<^verbatim>\<open>filepath.Join\<close>, which drops an
  empty base path and cleans its result; and it replaces the backslashes of the base path
  as well. What holds is this. For every base path and every hash, the hash has sixteen
  lowercase hexadecimal digits, the path has no backslash, the path ends with the file
  name \<^verbatim>\<open>0x\<close>, the sixteen digits, \<^verbatim>\<open>.lsb\<close>, and the hash is read back from the path. For
  a base path that \<^verbatim>\<open>filepath.Clean\<close> leaves as it is, other than \<^verbatim>\<open>.\<close> and \<^verbatim>\<open>/\<close>, the path
  is the base path with its backslashes replaced, a slash, the first four of the sixteen
  digits, \<^verbatim>\<open>/0x\<close>, the sixteen digits, and \<^verbatim>\<open>.lsb\<close>.
\<close>

theorem GetBlockPath_formula:
  "(Clean basePath = basePath \<and> basePath \<noteq> ''.'' \<and> basePath \<noteq> ''/'' \<longrightarrow>
      GetBlockPath basePath h =
        Replace_backslash basePath @ ''/'' @ take 4 (hex16 h) @ ''/0x'' @ hex16 h @ ''.lsb'')
   \<and> length (hex16 h) = 16
   \<and> set (hex16 h) \<subseteq> set ''0123456789abcdef''
   \<and> backslash \<notin> set (GetBlockPath basePath h)
   \<and> (\<exists>dir. GetBlockPath basePath h = dir @ ''0x'' @ hex16 h @ ''.lsb'')
   \<and> decode_hash (GetBlockPath basePath h) = h"
proof -
  let ?hex4 = "take 4 (hex16 h)"
  let ?fileName = "''0x'' @ hex16 h @ ''.lsb''"
  note hx = hex16_facts [of h]
  have s4: "set ?hex4 \<subseteq> set ''0123456789abcdef''"
    using hx(2) set_take_subset [of 4 "hex16 h"] by blast
  have l4: "length ?hex4 = 4"
    using hx(1) by simp
  have p4: "plain_elem ?hex4"
    using l4 by (intro plain_elem_length) simp
  have n4: "CHR ''/'' \<notin> set ?hex4"
    using hex_alphabet_plain(1) [OF s4] .
  have pf: "plain_elem ?fileName"
    by (intro plain_elem_length) simp
  have nf: "CHR ''/'' \<notin> set ?fileName"
    using hex_alphabet_plain(1) [OF hx(2)] by simp
  have bf: "backslash \<notin> set ?fileName"
    using hex_alphabet_plain(3) [OF hx(2)] by (simp add: backslash_def)
  have d: "take 4 (drop 2 ?fileName) = ?hex4"
    using hx(1) by simp
  have g: "GetBlockPath basePath h = Replace_backslash (Join [Join [basePath, ?hex4], ?fileName])"
    using d by (simp add: GetBlockPath_def Let_def)
  have c1: "GetBlockPath basePath h =
        Replace_backslash basePath @ ''/'' @ ?hex4 @ ''/0x'' @ hex16 h @ ''.lsb''"
    if a: "Clean basePath = basePath \<and> basePath \<noteq> ''.'' \<and> basePath \<noteq> ''/''"
  proof -
    let ?dir = "basePath @ CHR ''/'' # ?hex4"
    have j1: "Join [basePath, ?hex4] = ?dir"
      using Join_fixed [OF _ _ _ p4 n4] a by blast
    have cd: "Clean ?dir = ?dir"
      using Clean_fixed_extend [OF _ _ _ p4 n4] a by blast
    have nd1: "?dir \<noteq> ''.''"
    proof
      assume "?dir = ''.''"
      then have "length ?dir = length ''.''"
        by (rule arg_cong)
      then show False
        using hx(1) by simp
    qed
    have nd2: "?dir \<noteq> ''/''"
    proof
      assume "?dir = ''/''"
      then have "length ?dir = length ''/''"
        by (rule arg_cong)
      then show False
        using hx(1) by simp
    qed
    note nd = nd1 nd2
    have j2: "Join [?dir, ?fileName] = ?dir @ CHR ''/'' # ?fileName"
      using Join_fixed [OF cd nd pf nf] .
    have "Replace_backslash ?hex4 = ?hex4" "Replace_backslash (hex16 h) = hex16 h"
      using hex_alphabet_plain(3) [OF s4] hex_alphabet_plain(3) [OF hx(2)]
      by (simp_all add: Replace_backslash_id)
    then show ?thesis
      using g j1 j2 by (simp add: Replace_backslash_def backslash_def)
  qed
  have b: "backslash \<notin> set (GetBlockPath basePath h)"
    using g by (simp add: backslash_not_in_Replace)
  have "Join [basePath, ?hex4] \<noteq> []"
    using Join_not_Nil [of ?hex4 basePath] l4 by (metis list.size(3) zero_neq_numeral)
  then obtain pre where "Join [Join [basePath, ?hex4], ?fileName] = pre @ ?fileName"
    using Clean_ends [OF pf nf, of "Join [basePath, ?hex4]"] by (auto simp add: Join_def)
  then have e: "GetBlockPath basePath h = (Replace_backslash pre @ ''0x'') @ (hex16 h @ ''.lsb'')"
    using g bf Replace_backslash_id [OF bf] by (simp add: Replace_backslash_append)
  then have c5: "\<exists>dir. GetBlockPath basePath h = dir @ ''0x'' @ hex16 h @ ''.lsb''"
    by auto
  have "length (hex16 h @ ''.lsb'') = 20"
    using hx(1) by simp
  with e have "drop (length (GetBlockPath basePath h) - 20) (GetBlockPath basePath h) =
          hex16 h @ ''.lsb''"
    by (metis append_eq_conv_conj length_append add_diff_cancel_right')
  then have dh: "decode_hash (GetBlockPath basePath h) = h"
    using hx(1) by (simp add: decode_hash_def parse_hex_hex16)
  show ?thesis
    using c1 hx b c5 dh by blast
qed

theorem GetBlockPath_formula_witness:
  "Clean ''chunks'' = ''chunks'' \<and> ''chunks'' \<noteq> ''.'' \<and> ''chunks'' \<noteq> ''/''
   \<and> GetBlockPath ''chunks'' 0x0123456789abcdef = ''chunks/0123/0x0123456789abcdef.lsb''
   \<and> decode_hash ''chunks/0123/0x0123456789abcdef.lsb'' = 0x0123456789abcdef
   \<and> decode_hash (GetBlockPath [] 0x0123456789abcdef) = 0x0123456789abcdef"
proof -
  have c: "Clean ''chunks'' = ''chunks''"
    by code_simp
  have r: "Replace_backslash ''chunks'' = ''chunks''"
    by code_simp
  have x: "hex16 0x0123456789abcdef = ''0123456789abcdef''"
    by code_simp
  note t = GetBlockPath_formula [of "''chunks''" "0x0123456789abcdef"]
  have e: "GetBlockPath ''chunks'' 0x0123456789abcdef = ''chunks/0123/0x0123456789abcdef.lsb''"
    using t c r x by simp
  have "decode_hash (GetBlockPath ''chunks'' 0x0123456789abcdef) = 0x0123456789abcdef"
    using t by blast
  then have d: "decode_hash ''chunks/0123/0x0123456789abcdef.lsb'' = 0x0123456789abcdef"
    using e by simp
  have d0: "decode_hash (GetBlockPath [] 0x0123456789abcdef) = 0x0123456789abcdef"
    using GetBlockPath_formula [of "[]" "0x0123456789abcdef"] by blast
  show ?thesis
    using c e d d0 by simp
qed

theorem GetBlockPath_counterexample:
  "GetBlockPath [] 0 = ''0000/0x0000000000000000.lsb''
   \<and> GetBlockPath [] 0 \<noteq> [] @ ''/'' @ ''0000'' @ ''/0x'' @ hex16 0 @ ''.lsb''
   \<and> GetBlockPath ''chunks'' 0x0123456789abcdef = ''chunks/0123/0x0123456789abcdef.lsb''
   \<and> take 4 (drop 2 (hex16 0x0123456789abcdef)) = ''2345''
   \<and> GetBlockPath [CHR ''a'', backslash, CHR ''b''] 0 = ''a/b/0000/0x0000000000000000.lsb''
   \<and> GetBlockPath [CHR ''a'', backslash, CHR ''b''] 0
       \<noteq> [CHR ''a'', backslash, CHR ''b''] @ ''/'' @ ''0000'' @ ''/0x'' @ hex16 0 @ ''.lsb''"
  by code_simp

end
